theory Spec2Isabelle
  imports Complex_Main "HOL-Library.Word" "HOL-Library.Sublist"
begin

section \<open>Values shared by the client and the server\<close>

text \<open>
  A \<^verbatim>\<open>Uint8Array\<close> is a list of bytes, a \<^verbatim>\<open>Blob\<close> the bytes it holds. A JavaScript
  string is represented by its UTF-8 bytes (a \<^typ>\<open>string\<close>), so the ASCII texts of the
  wire protocol are literally the strings of the source.
\<close>

type_synonym byte = "8 word"
type_synonym Uint8Array = "byte list"
type_synonym Blob = "byte list"

datatype json =
    JNull
  | JBool bool
  | JNum rat
  | JStr string
  | JArr "json list"
  | JObj "(string \<times> json) list"

text \<open>
  A thrown value: an \<^verbatim>\<open>Error\<close> object with its message, or anything else.
  \<^verbatim>\<open>err instanceof Error ? err.message : d\<close> is \<open>message_or err d\<close>.
\<close>

datatype thrown = Error string | NonError

fun message_or :: "thrown \<Rightarrow> string \<Rightarrow> string" where
  "message_or (Error m) d = m"
| "message_or NonError d = d"

text \<open>\<^verbatim>\<open>v || d\<close> on a string that may be undefined: the empty string is falsy.\<close>

fun or_default :: "string option \<Rightarrow> string \<Rightarrow> string" where
  "or_default None d = d"
| "or_default (Some v) d = (if v = [] then d else v)"

subsection \<open>String.prototype.trim\<close>

text \<open>
  The white space and line terminators that \<^verbatim>\<open>trim\<close> removes, each as its UTF-8 byte
  sequence: U+0009..U+000D, U+0020, U+00A0, U+1680, U+2000..U+200A, U+2028, U+2029,
  U+202F, U+205F, U+3000, U+FEFF.
\<close>

definition white_space :: "string list" where
  "white_space =
    [ [CHR 0x09], [CHR 0x0A], [CHR 0x0B], [CHR 0x0C], [CHR 0x0D], [CHR 0x20],
     [CHR 0xC2, CHR 0xA0],
     [CHR 0xE1, CHR 0x9A, CHR 0x80],
     [CHR 0xE2, CHR 0x80, CHR 0x80], [CHR 0xE2, CHR 0x80, CHR 0x81],
     [CHR 0xE2, CHR 0x80, CHR 0x82], [CHR 0xE2, CHR 0x80, CHR 0x83],
     [CHR 0xE2, CHR 0x80, CHR 0x84], [CHR 0xE2, CHR 0x80, CHR 0x85],
     [CHR 0xE2, CHR 0x80, CHR 0x86], [CHR 0xE2, CHR 0x80, CHR 0x87],
     [CHR 0xE2, CHR 0x80, CHR 0x88], [CHR 0xE2, CHR 0x80, CHR 0x89],
     [CHR 0xE2, CHR 0x80, CHR 0x8A],
     [CHR 0xE2, CHR 0x80, CHR 0xA8], [CHR 0xE2, CHR 0x80, CHR 0xA9],
     [CHR 0xE2, CHR 0x80, CHR 0xAF],
     [CHR 0xE2, CHR 0x81, CHR 0x9F],
     [CHR 0xE3, CHR 0x80, CHR 0x80],
     [CHR 0xEF, CHR 0xBB, CHR 0xBF] ]"

text \<open>
  \<open>strip ws s\<close> removes from the front of \<open>s\<close> every leading sequence of \<open>ws\<close>;
  \<open>trim\<close> strips both ends (the end through the reversed string and sequences).
\<close>

function strip :: "string list \<Rightarrow> string \<Rightarrow> string" where
  "strip ws s =
     (case find (\<lambda>w. prefix w s) ws of
        None \<Rightarrow> s
      | Some w \<Rightarrow> if w = [] then s else strip ws (drop (length w) s))"
  by pat_completeness auto
termination
proof (relation "measure (\<lambda>(ws, s). length s)")
  show "wf (measure (\<lambda>(ws, s). length s))" by simp
next
  fix ws :: "string list" and s w :: string
  assume f: "find (\<lambda>w. prefix w s) ws = Some w" and ne: "w \<noteq> []"
  from f have "prefix w s" by (auto simp: find_Some_iff)
  then have "length w \<le> length s" by (rule prefix_length_le)
  with ne show "((ws, drop (length w) s), (ws, s)) \<in> measure (\<lambda>(ws, s). length s)"
    by (cases w) auto
qed

definition trim :: "string \<Rightarrow> string" where
  "trim s = rev (strip (map rev white_space) (rev (strip white_space s)))"

section \<open>The streamed response and its header (conversation.svelte.ts)\<close>

text \<open>
  \<^verbatim>\<open>value.indexOf(0x0a)\<close>: the index of the first occurrence, \<open>-1\<close> when there is none.
  \<^verbatim>\<open>value.slice(a)\<close> and \<^verbatim>\<open>value.slice(0, b)\<close> for indices in range.
\<close>

fun indexOf :: "Uint8Array \<Rightarrow> byte \<Rightarrow> int" where
  "indexOf [] b = - 1"
| "indexOf (x # xs) b =
     (if x = b then 0 else (let i = indexOf xs b in if i = - 1 then - 1 else i + 1))"

definition slice :: "Uint8Array \<Rightarrow> int \<Rightarrow> int \<Rightarrow> Uint8Array" where
  "slice v a b = take (nat (b - a)) (drop (nat a) v)"

definition slice_from :: "Uint8Array \<Rightarrow> int \<Rightarrow> Uint8Array" where
  "slice_from v a = drop (nat a) v"

text \<open>
  A \<^verbatim>\<open>ReadableStreamDefaultReader\<close>: the chunks it will still deliver, and how the stream
  ends (\<^verbatim>\<open>done\<close>, or a rejected \<^verbatim>\<open>read()\<close>).
\<close>

datatype stream_end = Done | ReadFailed thrown

type_synonym reader = "Uint8Array list \<times> stream_end"

text \<open>
  Phase 1 of \<^verbatim>\<open>processUserAudio\<close> and of \<^verbatim>\<open>requestGreeting\<close> (the same loop):
  \<^verbatim>\<open>
  while (!foundDelimiter) {
    const { done, value } = await reader.read();
    if (done) break;
    const nlIndex = value.indexOf(0x0a);
    if (nlIndex !== -1) {
      foundDelimiter = true;
      if (nlIndex > 0) textByteChunks.push(value.slice(0, nlIndex));
      if (nlIndex + 1 < value.length) firstAudioChunk = value.slice(nlIndex + 1);
    } else textByteChunks.push(value);
  }\<close>
  The result is \<open>textByteChunks\<close>, \<open>firstAudioChunk\<close> (\<open>None\<close> for \<^verbatim>\<open>null\<close>), the reader as
  the loop leaves it, and \<open>foundDelimiter\<close>; a rejected read is \<open>Inl\<close>.
\<close>

fun read_header ::
  "Uint8Array list \<Rightarrow> stream_end \<Rightarrow> Uint8Array list \<Rightarrow>
     thrown + (Uint8Array list \<times> Uint8Array option \<times> reader \<times> bool)" where
  "read_header [] Done textByteChunks = Inr (textByteChunks, None, ([], Done), False)"
| "read_header [] (ReadFailed e) textByteChunks = Inl e"
| "read_header (v # rest) fin textByteChunks =
     (let nlIndex = indexOf v 0x0a in
      if nlIndex \<noteq> - 1 then
        Inr (if nlIndex > 0 then textByteChunks @ [slice v 0 nlIndex] else textByteChunks,
             if nlIndex + 1 < int (length v) then Some (slice_from v (nlIndex + 1)) else None,
             (rest, fin), True)
      else read_header rest fin (textByteChunks @ [v]))"

text \<open>All bytes the audio player receives: the first slice, then what the reader delivers.\<close>

definition audio_bytes :: "Uint8Array option \<Rightarrow> reader \<Rightarrow> Uint8Array" where
  "audio_bytes firstAudioChunk r =
     (case firstAudioChunk of None \<Rightarrow> [] | Some c \<Rightarrow> c) @ concat (fst r)"

subsection \<open>Decoding and parsing the header line\<close>

text \<open>
  \<^verbatim>\<open>textByteChunks.map((c) => decoder.decode(c, { stream: true })).join('') + decoder.decode()\<close>:
  a streaming UTF-8 decoder yields the decoding of the concatenated chunks. With strings
  held as UTF-8 bytes that is the bytes themselves (for well-formed UTF-8).
\<close>

definition byte_to_char :: "byte \<Rightarrow> char" where
  "byte_to_char b = char_of (unat b)"

definition char_to_byte :: "char \<Rightarrow> byte" where
  "char_to_byte c = word_of_nat (of_char c)"

definition TextDecoder_decode :: "Uint8Array list \<Rightarrow> string" where
  "TextDecoder_decode textByteChunks = map byte_to_char (concat textByteChunks)"

definition TextEncoder_encode :: "string \<Rightarrow> Uint8Array" where
  "TextEncoder_encode s = map char_to_byte s"

text \<open>
  \<^verbatim>\<open>JSON.parse\<close> belongs to the platform. It is given here for the JSON texts both servers
  of this repository emit as header lines: one object whose members are strings (white
  space between tokens, the two-character escapes). Every other text is \<open>None\<close>.
\<close>

datatype token = LBrace | RBrace | Colon | Comma | Str string

datatype lex_mode = Outside | InString string | Escape string

fun unescape :: "char \<Rightarrow> char option" where
  "unescape c =
     (if c = CHR 0x22 then Some (CHR 0x22)
      else if c = CHR 0x5C then Some (CHR 0x5C)
      else if c = CHR ''/'' then Some (CHR ''/'')
      else if c = CHR ''b'' then Some (CHR 0x08)
      else if c = CHR ''f'' then Some (CHR 0x0C)
      else if c = CHR ''n'' then Some (CHR 0x0A)
      else if c = CHR ''r'' then Some (CHR 0x0D)
      else if c = CHR ''t'' then Some (CHR 0x09)
      else None)"

fun lex :: "lex_mode \<Rightarrow> string \<Rightarrow> token list option" where
  "lex Outside [] = Some []"
| "lex (InString acc) [] = None"
| "lex (Escape acc) [] = None"
| "lex Outside (c # cs) =
     (if c = CHR 0x20 \<or> c = CHR 0x09 \<or> c = CHR 0x0A \<or> c = CHR 0x0D then lex Outside cs
      else if c = CHR ''{'' then map_option (Cons LBrace) (lex Outside cs)
      else if c = CHR ''}'' then map_option (Cons RBrace) (lex Outside cs)
      else if c = CHR '':'' then map_option (Cons Colon) (lex Outside cs)
      else if c = CHR '','' then map_option (Cons Comma) (lex Outside cs)
      else if c = CHR 0x22 then lex (InString []) cs
      else None)"
| "lex (InString acc) (c # cs) =
     (if c = CHR 0x22 then map_option (Cons (Str (rev acc))) (lex Outside cs)
      else if c = CHR 0x5C then lex (Escape acc) cs
      else if (of_char c :: nat) < 0x20 then None
      else lex (InString (c # acc)) cs)"
| "lex (Escape acc) (c # cs) =
     (case unescape c of None \<Rightarrow> None | Some d \<Rightarrow> lex (InString (d # acc)) cs)"

fun members :: "token list \<Rightarrow> (string \<times> json) list option" where
  "members (Str k # Colon # Str v # t # rest) =
     (case t of
        RBrace \<Rightarrow> if rest = [] then Some [(k, JStr v)] else None
      | Comma \<Rightarrow> map_option (Cons (k, JStr v)) (members rest)
      | _ \<Rightarrow> None)"
| "members _ = None"

definition parse_flat_object :: "string \<Rightarrow> json option" where
  "parse_flat_object s =
     (case lex Outside s of
        None \<Rightarrow> None
      | Some toks \<Rightarrow>
          (case toks of
             LBrace # rest \<Rightarrow> if rest = [RBrace] then Some (JObj []) else map_option JObj (members rest)
           | _ \<Rightarrow> None))"

text \<open>
  Reading a member of a parsed object (\<^verbatim>\<open>parsed.text\<close>): the last member of that name, as
  \<^verbatim>\<open>JSON.parse\<close> keeps it; \<open>None\<close> is \<^verbatim>\<open>undefined\<close>.
\<close>

fun member :: "json \<Rightarrow> string \<Rightarrow> json option" where
  "member (JObj kvs) k = map_of (rev kvs) k"
| "member _ k = None"

text \<open>
  The header as the client reads it. \<^verbatim>\<open>JSON.parse\<close> returns \<^verbatim>\<open>any\<close>; the source reads
  \<^verbatim>\<open>parsed.transcript\<close> and \<^verbatim>\<open>parsed.text\<close> at the declared type \<^verbatim>\<open>string\<close>. The platform
  function \<open>parse_header\<close> stands for the parse together with these two reads: a
  \<^verbatim>\<open>SyntaxError\<close>, and the \<^verbatim>\<open>TypeError\<close> of reading a member of \<^verbatim>\<open>null\<close>, are \<open>Inl\<close>; a
  member that is absent is \<open>None\<close>. Members that are not strings are outside the declared
  types.
\<close>

record header =
  h_text :: "string option"
  h_transcript :: "string option"

record platform =
  decode :: "Uint8Array list \<Rightarrow> string"
  parse_header :: "string \<Rightarrow> thrown + header"

fun string_member :: "json \<Rightarrow> string \<Rightarrow> string option" where
  "string_member j k = (case member j k of Some (JStr v) \<Rightarrow> Some v | _ \<Rightarrow> None)"

definition flat_header :: "string \<Rightarrow> thrown + header" where
  "flat_header s =
     (case parse_flat_object s of
        None \<Rightarrow> Inl (Error ''SyntaxError'')
      | Some parsed \<Rightarrow>
          Inr \<lparr>h_text = string_member parsed ''text'',
               h_transcript = string_member parsed ''transcript''\<rparr>)"

definition flat_platform :: platform where
  "flat_platform = \<lparr>decode = TextDecoder_decode, parse_header = flat_header\<rparr>"

text \<open>The synthetic header of the protocol round trip, as text and as bytes.\<close>

definition hi_yo :: string where
  \<open>hi_yo = ''{"text":"hi","transcript":"yo"}''\<close>

definition hi_yo_bytes :: Uint8Array where
  "hi_yo_bytes = TextEncoder_encode hi_yo"

section \<open>The conversation store (stores/conversation.svelte.ts)\<close>

datatype Role = User | Assistant

datatype AvatarState = Idle | Listening | Thinking | Speaking

record ChatMessage =
  msg_id :: string
  role :: Role
  content :: string
  timestamp :: int

record store =
  messages :: "ChatMessage list"
  avatarState :: AvatarState
  isProcessing :: bool
  isSessionActive :: bool
  error :: "string option"
  sessionId :: string
  currentAudio :: "nat option"

text \<open>
  \<^verbatim>\<open>addMessage\<close> draws \<^verbatim>\<open>crypto.randomUUID()\<close> and \<^verbatim>\<open>new Date()\<close> from the platform; the
  pair is passed in.
\<close>

type_synonym stamp = "string \<times> int"

definition addMessage :: "stamp \<Rightarrow> Role \<Rightarrow> string \<Rightarrow> store \<Rightarrow> store" where
  "addMessage st r c s =
     s\<lparr>messages := messages s @ [\<lparr>msg_id = fst st, role = r, content = c, timestamp = snd st\<rparr>]\<rparr>"

text \<open>\<^verbatim>\<open>isSessionActive ? 'listening' : 'idle'\<close>\<close>

definition listening_or_idle :: "store \<Rightarrow> AvatarState" where
  "listening_or_idle s = (if isSessionActive s then Listening else Idle)"

definition stopSpeaking :: "store \<Rightarrow> store" where
  "stopSpeaking s =
     (let s1 = (if currentAudio s \<noteq> None then s\<lparr>currentAudio := None\<rparr> else s)
      in if avatarState s1 = Speaking then s1\<lparr>avatarState := listening_or_idle s1\<rparr> else s1)"

definition endSession :: "store \<Rightarrow> store" where
  "endSession s = stopSpeaking (s\<lparr>isSessionActive := False, isProcessing := False, avatarState := Idle\<rparr>)"

definition reset :: "string \<Rightarrow> store \<Rightarrow> store" where
  "reset uuid s =
     (endSession s)\<lparr>messages := [], avatarState := Idle, isProcessing := False,
                    error := None, sessionId := uuid\<rparr>"

text \<open>
  What \<^verbatim>\<open>fetch\<close> answers. For a status that is not ok the source reads
  \<^verbatim>\<open>(await response.json()).error\<close>: the promise rejects, or the body is \<^verbatim>\<open>null\<close> and the
  read throws, or the read gives the member \<^verbatim>\<open>error\<close> (a string, when present).
\<close>

datatype json_body =
    BodyRejected thrown
  | BodyNull thrown
  | BodyError "string option"

datatype response =
    FetchRejected thrown
  | NotOk json_body
  | OkNoBody
  | OkBody "Uint8Array list" stream_end

text \<open>
  An asynchronous function runs in phases, one per \<^verbatim>\<open>await\<close> at which the store is
  read or written afterwards; between two phases other handlers may change the store, so
  each phase takes the store as it then is. A phase ends with the function finished, or
  with \<^verbatim>\<open>playStreamingAudio(reader, firstAudioChunk)\<close> called and awaited.
\<close>

datatype phase = Finished | Playback reader "Uint8Array option"

subsection \<open>startSession and requestGreeting\<close>

definition startSession :: "store \<Rightarrow> store" where
  "startSession s = s\<lparr>isSessionActive := True, avatarState := Thinking, error := None\<rparr>"

definition greeting_fallback :: string where
  "greeting_fallback = ''How has your day been so far? I'' @ [CHR 0x27] @ ''d love to hear about it.''"

text \<open>The \<^verbatim>\<open>try\<close> block of \<^verbatim>\<open>requestGreeting\<close> up to the call of the player.\<close>

definition requestGreeting_try ::
  "platform \<Rightarrow> stamp \<Rightarrow> response \<Rightarrow> store \<Rightarrow> thrown + (store \<times> reader \<times> Uint8Array option)" where
  "requestGreeting_try P st resp s =
     (case resp of
        FetchRejected e \<Rightarrow> Inl e
      | NotOk b \<Rightarrow>
          (case b of
             BodyRejected e \<Rightarrow> Inl (Error ''Failed to get greeting'')
           | BodyNull e \<Rightarrow> Inl e
           | BodyError m \<Rightarrow> Inl (Error (or_default m ''Failed to get greeting'')))
      | OkNoBody \<Rightarrow> Inl (Error ''No response body'')
      | OkBody cs fin \<Rightarrow>
          (case read_header cs fin [] of
             Inl e \<Rightarrow> Inl e
           | Inr (textByteChunks, firstAudioChunk, reader, foundDelimiter) \<Rightarrow>
               (case parse_header P (decode P textByteChunks) of
                  Inl e \<Rightarrow> Inl e
                | Inr parsed \<Rightarrow>
                    (let responseText = or_default (h_text parsed) [];
                         s1 = (if trim responseText \<noteq> []
                               then addMessage st Assistant responseText s else s)
                     in Inr (s1\<lparr>avatarState := Speaking\<rparr>, reader, firstAudioChunk)))))"

definition requestGreeting_catch :: "stamp \<Rightarrow> thrown \<Rightarrow> store \<Rightarrow> store" where
  "requestGreeting_catch st err s =
     addMessage st Assistant greeting_fallback
       (s\<lparr>error := Some (message_or err ''Could not start conversation'')\<rparr>)"

definition requestGreeting_finally :: "store \<Rightarrow> store" where
  "requestGreeting_finally s = s\<lparr>avatarState := listening_or_idle s\<rparr>"

text \<open>
  The phase from the answer of \<^verbatim>\<open>fetch\<close> to the call of the player (\<open>st\<close> stamps the
  greeting message, \<open>st'\<close> the fallback message), and the phase after the player settled
  (\<open>None\<close>: resolved; \<open>Some e\<close>: rejected with \<open>e\<close>).
\<close>

definition requestGreeting_response ::
  "platform \<Rightarrow> stamp \<Rightarrow> stamp \<Rightarrow> response \<Rightarrow> store \<Rightarrow> store \<times> phase" where
  "requestGreeting_response P st st' resp s =
     (case requestGreeting_try P st resp s of
        Inl e \<Rightarrow> (requestGreeting_finally (requestGreeting_catch st' e s), Finished)
      | Inr (s1, reader, firstAudioChunk) \<Rightarrow> (s1, Playback reader firstAudioChunk))"

definition requestGreeting_played :: "stamp \<Rightarrow> thrown option \<Rightarrow> store \<Rightarrow> store" where
  "requestGreeting_played st' settled s =
     (case settled of
        None \<Rightarrow> requestGreeting_finally s
      | Some e \<Rightarrow> requestGreeting_finally (requestGreeting_catch st' e s))"

subsection \<open>processUserAudio\<close>

record request =
  audio :: Blob
  chatMessages :: "(Role \<times> string) list"

text \<open>The entry of \<^verbatim>\<open>processUserAudio\<close> up to \<^verbatim>\<open>await fetch(...)\<close>: the guard, then the request.\<close>

definition processUserAudio_begin :: "Blob \<Rightarrow> store \<Rightarrow> store \<times> request option" where
  "processUserAudio_begin audioBlob s =
     (if isProcessing s then (s, None)
      else (s\<lparr>isProcessing := True, error := None, avatarState := Thinking\<rparr>,
            Some \<lparr>audio = audioBlob,
                  chatMessages = map (\<lambda>m. (role m, content m)) (messages s)\<rparr>))"

text \<open>
  The \<^verbatim>\<open>try\<close> block from the answer of \<^verbatim>\<open>fetch\<close> on: to the early \<^verbatim>\<open>return\<close> of an empty
  transcription, or to the call of the player.
\<close>

definition processUserAudio_try ::
  "platform \<Rightarrow> stamp \<Rightarrow> stamp \<Rightarrow> response \<Rightarrow> store \<Rightarrow> thrown + (store \<times> phase)" where
  "processUserAudio_try P st1 st2 resp s =
     (case resp of
        FetchRejected e \<Rightarrow> Inl e
      | NotOk b \<Rightarrow>
          (case b of
             BodyRejected e \<Rightarrow> Inl e
           | BodyNull e \<Rightarrow> Inl e
           | BodyError m \<Rightarrow> Inl (Error (or_default m ''Processing failed'')))
      | OkNoBody \<Rightarrow> Inl (Error ''No response body'')
      | OkBody cs fin \<Rightarrow>
          (case read_header cs fin [] of
             Inl e \<Rightarrow> Inl e
           | Inr (textByteChunks, firstAudioChunk, reader, foundDelimiter) \<Rightarrow>
               (case parse_header P (decode P textByteChunks) of
                  Inl e \<Rightarrow> Inl e
                | Inr parsed \<Rightarrow>
                    (let transcript = or_default (h_transcript parsed) [];
                         responseText = or_default (h_text parsed) []
                     in if trim transcript = []
                        then Inr (s\<lparr>avatarState := listening_or_idle s, isProcessing := False\<rparr>,
                                  Finished)
                        else Inr ((addMessage st2 Assistant responseText
                                     (addMessage st1 User transcript s))
                                    \<lparr>avatarState := Speaking\<rparr>,
                                  Playback reader firstAudioChunk)))))"

definition processUserAudio_catch :: "thrown \<Rightarrow> store \<Rightarrow> store" where
  "processUserAudio_catch err s =
     s\<lparr>error := Some (message_or err ''An error occurred''),
       avatarState := listening_or_idle s\<rparr>"

definition processUserAudio_finally :: "store \<Rightarrow> store" where
  "processUserAudio_finally s = s\<lparr>isProcessing := False\<rparr>"

definition processUserAudio_response ::
  "platform \<Rightarrow> stamp \<Rightarrow> stamp \<Rightarrow> response \<Rightarrow> store \<Rightarrow> store \<times> phase" where
  "processUserAudio_response P st1 st2 resp s =
     (case processUserAudio_try P st1 st2 resp s of
        Inl e \<Rightarrow> (processUserAudio_finally (processUserAudio_catch e s), Finished)
      | Inr (s1, Finished) \<Rightarrow> (processUserAudio_finally s1, Finished)
      | Inr (s1, Playback reader firstAudioChunk) \<Rightarrow> (s1, Playback reader firstAudioChunk))"

definition processUserAudio_played :: "thrown option \<Rightarrow> store \<Rightarrow> store" where
  "processUserAudio_played settled s =
     (case settled of
        None \<Rightarrow> processUserAudio_finally (s\<lparr>avatarState := listening_or_idle s\<rparr>)
      | Some e \<Rightarrow> processUserAudio_finally (processUserAudio_catch e s))"

text \<open>
  One whole call with nothing else running in between: \<open>resp\<close> is what \<^verbatim>\<open>fetch\<close> answers,
  \<open>settled\<close> how the player settles if it is called.
\<close>

definition processUserAudio ::
  "platform \<Rightarrow> stamp \<Rightarrow> stamp \<Rightarrow> response \<Rightarrow> thrown option \<Rightarrow> Blob \<Rightarrow> store \<Rightarrow> store" where
  "processUserAudio P st1 st2 resp settled audioBlob s =
     (case processUserAudio_begin audioBlob s of
        (s1, None) \<Rightarrow> s1
      | (s1, Some req) \<Rightarrow>
          (case processUserAudio_response P st1 st2 resp s1 of
             (s2, Finished) \<Rightarrow> s2
           | (s2, Playback reader firstAudioChunk) \<Rightarrow> processUserAudio_played settled s2))"

text \<open>
  The greeting request fails: a status that is not ok, a missing body, or anything
  thrown (by \<^verbatim>\<open>fetch\<close>, by a read of the stream, by decoding and parsing the header).
\<close>

definition greeting_request_fails :: "platform \<Rightarrow> response \<Rightarrow> bool" where
  "greeting_request_fails P resp =
     (case resp of
        FetchRejected e \<Rightarrow> True
      | NotOk b \<Rightarrow> True
      | OkNoBody \<Rightarrow> True
      | OkBody cs fin \<Rightarrow>
          (case read_header cs fin [] of
             Inl e \<Rightarrow> True
           | Inr (textByteChunks, firstAudioChunk, reader, foundDelimiter) \<Rightarrow>
               (case parse_header P (decode P textByteChunks) of
                  Inl e \<Rightarrow> True
                | Inr parsed \<Rightarrow> False)))"

text \<open>A store in the middle of a session, for evaluation.\<close>

definition busy_store :: store where
  "busy_store =
     \<lparr>messages = [], avatarState = Thinking, isProcessing = True, isSessionActive = True,
      error = None, sessionId = ''s'', currentAudio = None\<rparr>"

text \<open>
  The header of an empty transcription, and the answer to the turn "I feel fine" cut into
  three chunks, the second holding the delimiter and two bytes of audio.
\<close>

definition empty_header :: string where
  \<open>empty_header = ''{"text":"","transcript":""}''\<close>

definition fine_header :: string where
  \<open>fine_header = ''{"text":"That is wonderful to hear.","transcript":"I feel fine"}''\<close>

definition fine_response :: response where
  "fine_response =
     OkBody [take 9 (TextEncoder_encode fine_header),
             drop 9 (TextEncoder_encode fine_header) @ [0x0a, 7, 8], [9] ] Done"

section \<open>The server routes (server/api/index.ts)\<close>

text \<open>
  A response of a route: the streamed body (status 200, \<^verbatim>\<open>application/octet-stream\<close>) as
  the chunks enqueued, or \<^verbatim>\<open>c.json(body, status)\<close>.
\<close>

datatype http_response =
    Streamed "Uint8Array list"
  | JsonResponse nat json

subsection \<open>JSON.stringify of the header objects\<close>

definition hex_digit :: "nat \<Rightarrow> char" where
  "hex_digit n = ''0123456789abcdef'' ! (n mod 16)"

definition quote_char :: "char \<Rightarrow> string" where
  "quote_char c =
     (if c = CHR 0x22 then [CHR 0x5C, CHR 0x22]
      else if c = CHR 0x5C then [CHR 0x5C, CHR 0x5C]
      else if c = CHR 0x08 then [CHR 0x5C, CHR ''b'']
      else if c = CHR 0x0C then [CHR 0x5C, CHR ''f'']
      else if c = CHR 0x0A then [CHR 0x5C, CHR ''n'']
      else if c = CHR 0x0D then [CHR 0x5C, CHR ''r'']
      else if c = CHR 0x09 then [CHR 0x5C, CHR ''t'']
      else if (of_char c :: nat) < 0x20
        then [CHR 0x5C, CHR ''u'', CHR ''0'', CHR ''0'',
              hex_digit (of_char c div 16), hex_digit (of_char c)]
      else [c])"

definition quote :: "string \<Rightarrow> string" where
  "quote s = [CHR 0x22] @ concat (map quote_char s) @ [CHR 0x22]"

fun stringify_members :: "(string \<times> string) list \<Rightarrow> string" where
  "stringify_members [] = []"
| "stringify_members [(k, v)] = quote k @ '':'' @ quote v"
| "stringify_members ((k, v) # kvs) = quote k @ '':'' @ quote v @ '','' @ stringify_members kvs"

definition JSON_stringify :: "(string \<times> string) list \<Rightarrow> string" where
  "JSON_stringify kvs = ''{'' @ stringify_members kvs @ ''}''"

text \<open>\<^verbatim>\<open>encoder.encode(JSON.stringify(obj) + '\n')\<close>\<close>

definition textLine_of :: "(string \<times> string) list \<Rightarrow> Uint8Array" where
  "textLine_of kvs = TextEncoder_encode (JSON_stringify kvs @ [CHR 0x0A])"

subsection \<open>The routes\<close>

text \<open>
  The OpenAI client is the environment: each call throws or returns. \<open>chat\<close> gives
  \<^verbatim>\<open>completion.choices[0]?.message?.content\<close>, \<open>chat_stream\<close> the \<^verbatim>\<open>delta.content\<close> of the
  chunks streamed, \<open>transcribe\<close> the text, \<open>speech\<close> the chunks of \<^verbatim>\<open>ttsResponse.body\<close>
  (\<open>None\<close> for \<^verbatim>\<open>null\<close>). The form of \<^verbatim>\<open>/process-audio\<close> is what \<^verbatim>\<open>c.req.formData()\<close> gives, or
  what is thrown up to there. The prompt constants and \<^verbatim>\<open>getAnalysisPrompt\<close> are parameters, and
  so is the platform's \<^verbatim>\<open>JSON.parse\<close> (of the message history, of the analysis text).
\<close>

record OpenAI =
  chat :: "(string \<times> string) list \<Rightarrow> thrown + string option"
  chat_stream :: "(string \<times> string) list \<Rightarrow> thrown + string option list"
  transcribe :: "Blob \<Rightarrow> thrown + string"
  speech :: "string \<Rightarrow> thrown + Uint8Array list option"

record prompts =
  ASSESSMENT_SYSTEM_PROMPT :: string
  ASSESSMENT_GREETING_USER_PROMPT :: string
  ANALYSIS_SYSTEM_MESSAGE :: string
  getAnalysisPrompt :: "string \<Rightarrow> string"

text \<open>The \<^verbatim>\<open>catch\<close> block of every route: \<^verbatim>\<open>c.json({ error: message, success: false }, 500)\<close>.\<close>

definition route_catch :: "thrown \<Rightarrow> string \<Rightarrow> http_response" where
  "route_catch err d =
     JsonResponse 500 (JObj [(''error'', JStr (message_or err d)), (''success'', JBool False)])"

definition tts_chunks :: "Uint8Array list option \<Rightarrow> Uint8Array list" where
  "tts_chunks ttsBody = (case ttsBody of None \<Rightarrow> [] | Some cs \<Rightarrow> cs)"

definition greeting_route :: "OpenAI \<Rightarrow> prompts \<Rightarrow> http_response" where
  "greeting_route ai pr =
     (case chat ai [(''system'', ASSESSMENT_SYSTEM_PROMPT pr),
                    (''user'', ASSESSMENT_GREETING_USER_PROMPT pr)] of
        Inl e \<Rightarrow> route_catch e ''Failed to get greeting''
      | Inr c \<Rightarrow>
          (let responseText = or_default (map_option trim c) greeting_fallback in
           case speech ai responseText of
             Inl e \<Rightarrow> route_catch e ''Failed to get greeting''
           | Inr ttsBody \<Rightarrow>
               Streamed (textLine_of [(''text'', responseText)] # tts_chunks ttsBody)))"

record form =
  audio_field :: "Blob option"
  messages_field :: "string option"

definition apology :: string where
  "apology = ''I apologize, I had trouble understanding. Could you please repeat that?''"

text \<open>\<^verbatim>\<open>messagesJson ? JSON.parse(messagesJson) : []\<close>\<close>

definition previousMessages_of ::
  "(string \<Rightarrow> thrown + (string \<times> string) list) \<Rightarrow> string option
     \<Rightarrow> thrown + (string \<times> string) list" where
  "previousMessages_of parse_messages messagesJson =
     (case messagesJson of
        None \<Rightarrow> Inr []
      | Some j \<Rightarrow> if j = [] then Inr [] else parse_messages j)"

definition process_audio_route ::
  "OpenAI \<Rightarrow> prompts \<Rightarrow> (string \<Rightarrow> thrown + (string \<times> string) list) \<Rightarrow> thrown + form
     \<Rightarrow> http_response" where
  "process_audio_route ai pr parse_messages formData =
     (case formData of
        Inl e \<Rightarrow> route_catch e ''Processing failed''
      | Inr f \<Rightarrow>
          (case audio_field f of
             None \<Rightarrow> JsonResponse 400 (JObj [(''error'', JStr ''No audio file provided'')])
           | Some audioFile \<Rightarrow>
               (case previousMessages_of parse_messages (messages_field f) of
                  Inl e \<Rightarrow> route_catch e ''Processing failed''
                | Inr previousMessages \<Rightarrow>
                    (case transcribe ai audioFile of
                       Inl e \<Rightarrow> route_catch e ''Processing failed''
                     | Inr transcript \<Rightarrow>
                         if trim transcript = []
                         then Streamed [textLine_of [(''text'', []), (''transcript'', [])] ]
                         else
                           (case chat_stream ai
                                   ((''system'', ASSESSMENT_SYSTEM_PROMPT pr) # previousMessages
                                      @ [(''user'', transcript)]) of
                              Inl e \<Rightarrow> route_catch e ''Processing failed''
                            | Inr deltas \<Rightarrow>
                                (let collected = concat (map (\<lambda>d. or_default d []) deltas);
                                     responseText = (if collected = [] then apology else collected)
                                 in case speech ai responseText of
                                      Inl e \<Rightarrow> route_catch e ''Processing failed''
                                    | Inr ttsBody \<Rightarrow>
                                        Streamed
                                          (textLine_of [(''text'', responseText),
                                                        (''transcript'', transcript)]
                                             # tts_chunks ttsBody)))))))"

text \<open>
  The handler of \<^verbatim>\<open>/analyze\<close>, which runs on a body the validator accepted
  (\<^verbatim>\<open>{ transcript: string }\<close>).
\<close>

definition analyze_route ::
  "OpenAI \<Rightarrow> prompts \<Rightarrow> (string \<Rightarrow> thrown + json) \<Rightarrow> string \<Rightarrow> http_response" where
  "analyze_route ai pr JSON_parse transcript =
     (case chat ai [(''system'', ANALYSIS_SYSTEM_MESSAGE pr),
                    (''user'', getAnalysisPrompt pr transcript)] of
        Inl e \<Rightarrow> route_catch e ''Analysis failed''
      | Inr c \<Rightarrow>
          (let analysisText = or_default c ''{}'' in
           case JSON_parse analysisText of
             Inl e \<Rightarrow> route_catch e ''Analysis failed''
           | Inr analysis \<Rightarrow>
               JsonResponse 200 (JObj [(''analysis'', analysis), (''success'', JBool True)])))"

text \<open>\<^verbatim>\<open>JSON.parse\<close> on the texts \<open>parse_flat_object\<close> covers.\<close>

definition flat_JSON_parse :: "string \<Rightarrow> thrown + json" where
  "flat_JSON_parse s =
     (case parse_flat_object s of None \<Rightarrow> Inl (Error ''SyntaxError'') | Some j \<Rightarrow> Inr j)"

text \<open>
  The shape of a \<^verbatim>\<open>StructuredReport\<close> as the interface documents it: \<^verbatim>\<open>overallSeverity\<close> one
  of four strings, and in each of the five domains a \<^verbatim>\<open>score\<close> that is a whole number from
  1 to 10.
\<close>

definition score_ok :: "json \<Rightarrow> string \<Rightarrow> bool" where
  "score_ok analysis d =
     (case member analysis d of
        None \<Rightarrow> False
      | Some entry \<Rightarrow>
          (case member entry ''score'' of
             Some (JNum n) \<Rightarrow> of_int \<lfloor>n\<rfloor> = n \<and> 1 \<le> n \<and> n \<le> 10
           | _ \<Rightarrow> False))"

definition severity_ok :: "json \<Rightarrow> bool" where
  "severity_ok analysis =
     (case member analysis ''overallSeverity'' of
        Some (JStr v) \<Rightarrow> v \<in> set [''normal'', ''mild'', ''moderate'', ''significant'']
      | _ \<Rightarrow> False)"

definition StructuredReport_shape :: "json \<Rightarrow> bool" where
  "StructuredReport_shape analysis =
     (severity_ok analysis \<and>
      list_all (score_ok analysis)
        [''memory'', ''language'', ''attention'', ''orientation'', ''executiveFunction''])"

text \<open>
  A client whose completion carries no content, and one whose completion is an object of
  another shape; prompts of no account.
\<close>

definition no_prompts :: prompts where
  "no_prompts =
     \<lparr>ASSESSMENT_SYSTEM_PROMPT = [], ASSESSMENT_GREETING_USER_PROMPT = [],
      ANALYSIS_SYSTEM_MESSAGE = [], getAnalysisPrompt = id\<rparr>"

definition constant_ai :: "string option \<Rightarrow> OpenAI" where
  "constant_ai c =
     \<lparr>chat = (\<lambda>ms. Inr c), chat_stream = (\<lambda>ms. Inr [c]),
      transcribe = (\<lambda>b. Inr []), speech = (\<lambda>t. Inr None)\<rparr>"

definition no_content_ai :: OpenAI where
  "no_content_ai = constant_ai None"

definition catastrophic :: string where
  \<open>catastrophic = ''{"overallSeverity":"catastrophic"}''\<close>

section \<open>The voice recorder (components/VoiceRecorder.svelte)\<close>

subsection \<open>State\<close>

definition SILENCE_THRESHOLD :: rat where "SILENCE_THRESHOLD = 5"
definition SILENCE_TIMEOUT :: int where "SILENCE_TIMEOUT = 2000"
definition WARMUP_PERIOD :: int where "WARMUP_PERIOD = 1500"
definition MIN_RECORDING_MS :: int where "MIN_RECORDING_MS = 500"

text \<open>
  A \<^verbatim>\<open>MediaRecorder\<close>: \<open>Recording\<close> is the state \<^verbatim>\<open>'recording'\<close>; after \<^verbatim>\<open>stop()\<close> the state is
  \<^verbatim>\<open>'inactive'\<close> at once, with the last \<^verbatim>\<open>dataavailable\<close> and the \<^verbatim>\<open>stop\<close> event still to come
  (\<open>Stopping\<close>), and then behind it (\<open>Stopped\<close>). Its \<^verbatim>\<open>onstop\<close> is unset, or the closure
  \<^verbatim>\<open>stopTurn(true)\<close> installs (the array \<open>capturedChunks\<close> refers to, and \<open>capturedSpeech\<close>),
  or the empty closure of a discarded turn.
\<close>

datatype recorder_state = Recording | Stopping | Stopped

datatype onstop_handler = NoHandler | SendOnStop nat bool | DiscardOnStop

record MediaRecorder =
  rstate :: recorder_state
  onstop :: onstop_handler

text \<open>
  The variables of the component, then the objects of the platform they refer to: the
  recorders created so far (\<open>mediaRecorder\<close> is an index into them), the arrays allocated
  for \<open>audioChunks\<close> (which is an index too, so that a closure and the variable may share
  one array), the animation frames requested and neither run nor cancelled, the next
  frame handle, and the number of calls of \<^verbatim>\<open>startTurn\<close> waiting at \<^verbatim>\<open>await acquireMic()\<close>.
  Times are \<^verbatim>\<open>Date.now()\<close> in milliseconds.
\<close>

record VoiceRecorder =
  isListening :: bool
  audioLevel :: rat
  hasPermission :: "bool option"
  isSendingSilence :: bool
  stream :: bool
  audioContext :: bool
  analyser :: bool
  animationFrame :: "nat option"
  mediaRecorder :: "nat option"
  audioChunks :: nat
  awaitingResponse :: bool
  startingTurn :: bool
  silenceStart :: "int option"
  turnStartTime :: int
  hasSpeechStarted :: bool
  recorders :: "MediaRecorder list"
  arrays :: "Blob list list"
  frames :: "nat list"
  nextFrame :: nat
  acquiring :: nat

definition mounted :: VoiceRecorder where
  "mounted =
     \<lparr>isListening = False, audioLevel = 0, hasPermission = None, isSendingSilence = False,
      stream = False, audioContext = False, analyser = False, animationFrame = None,
      mediaRecorder = None, audioChunks = 0, awaitingResponse = False, startingTurn = False,
      silenceStart = None, turnStartTime = 0, hasSpeechStarted = False,
      recorders = [], arrays = [ [] ], frames = [], nextFrame = 1, acquiring = 0\<rparr>"

text \<open>The callbacks the component invokes on its parent.\<close>

datatype callback = onRecordingComplete Blob | onSessionReady | onError string

subsection \<open>Level monitoring\<close>

text \<open>
  \<^verbatim>\<open>analyser.fftSize = 256\<close>, so \<open>dataArray\<close> has 128 entries, which
  \<^verbatim>\<open>getByteFrequencyData\<close> fills. Then
  \<^verbatim>\<open>average = dataArray.reduce((a, b) => a + b) / dataArray.length\<close> and
  \<^verbatim>\<open>audioLevel = Math.min(100, (average / 128) * 100)\<close>, in exact arithmetic.
\<close>

definition frequencyBinCount :: nat where
  "frequencyBinCount = 128"

definition getByteFrequencyData :: "byte list \<Rightarrow> byte list" where
  "getByteFrequencyData spectrum =
     take frequencyBinCount (spectrum @ replicate frequencyBinCount 0)"

definition level :: "byte list \<Rightarrow> rat" where
  "level spectrum =
     (let dataArray = getByteFrequencyData spectrum;
          average = of_nat (sum_list (map unat dataArray)) / of_nat (length dataArray)
      in min 100 ((average / 128) * 100))"

text \<open>\<^verbatim>\<open>animationFrame = requestAnimationFrame(updateLevel)\<close>\<close>

definition requestAnimationFrame :: "VoiceRecorder \<Rightarrow> VoiceRecorder" where
  "requestAnimationFrame s =
     s\<lparr>animationFrame := Some (nextFrame s), frames := frames s @ [nextFrame s],
       nextFrame := Suc (nextFrame s)\<rparr>"

definition startLevelMonitoring :: "VoiceRecorder \<Rightarrow> VoiceRecorder" where
  "startLevelMonitoring s = (if \<not> analyser s then s else requestAnimationFrame s)"

text \<open>\<^verbatim>\<open>if (animationFrame) { cancelAnimationFrame(animationFrame); animationFrame = null; }\<close>\<close>

definition stopLevelMonitoring :: "VoiceRecorder \<Rightarrow> VoiceRecorder" where
  "stopLevelMonitoring s =
     (case animationFrame s of
        None \<Rightarrow> s
      | Some h \<Rightarrow>
          if h = 0 then s
          else s\<lparr>frames := removeAll h (frames s), animationFrame := None\<rparr>)"

subsection \<open>Turns\<close>

text \<open>\<^verbatim>\<open>mediaRecorder && mediaRecorder.state !== 'inactive'\<close> for the recorder \<open>r\<close>.\<close>

definition active_recorder :: "VoiceRecorder \<Rightarrow> nat \<Rightarrow> bool" where
  "active_recorder s r = (r < length (recorders s) \<and> rstate (recorders s ! r) = Recording)"

text \<open>\<^verbatim>\<open>recorder.onstop = h; recorder.stop()\<close>\<close>

definition stop_with :: "onstop_handler \<Rightarrow> nat \<Rightarrow> VoiceRecorder \<Rightarrow> VoiceRecorder" where
  "stop_with h r s = s\<lparr>recorders := (recorders s)[r := \<lparr>rstate = Stopping, onstop = h\<rparr>]\<rparr>"

definition stopTurn :: "bool \<Rightarrow> VoiceRecorder \<Rightarrow> VoiceRecorder" where
  "stopTurn sendAudio s =
     (let s1 = (stopLevelMonitoring s)
                 \<lparr>isListening := False, audioLevel := 0, silenceStart := None,
                  isSendingSilence := False\<rparr>;
          s2 = (case mediaRecorder s1 of
                  None \<Rightarrow> s1
                | Some r \<Rightarrow>
                    if active_recorder s1 r then
                      (if sendAudio
                       then stop_with (SendOnStop (audioChunks s1) (hasSpeechStarted s1)) r
                              (s1\<lparr>awaitingResponse := True\<rparr>)
                       else stop_with DiscardOnStop r s1)
                    else s1)
      in s2\<lparr>mediaRecorder := None\<rparr>)"

definition teardownSession :: "VoiceRecorder \<Rightarrow> VoiceRecorder" where
  "teardownSession s =
     (let s1 = (stopLevelMonitoring s)
                 \<lparr>isListening := False, audioLevel := 0, silenceStart := None,
                  isSendingSilence := False, hasSpeechStarted := False,
                  awaitingResponse := False, startingTurn := False\<rparr>;
          s2 = (case mediaRecorder s1 of
                  None \<Rightarrow> s1
                | Some r \<Rightarrow> if active_recorder s1 r then stop_with DiscardOnStop r s1 else s1);
          s3 = s2\<lparr>mediaRecorder := None\<rparr>;
          s4 = (if audioContext s3 then s3\<lparr>audioContext := False, analyser := False\<rparr> else s3)
      in if stream s4 then s4\<lparr>stream := False\<rparr> else s4)"

text \<open>
  The \<^verbatim>\<open>try\<close> block of \<^verbatim>\<open>startTurn\<close> after the microphone is there, on the path where
  nothing throws: a fresh array for \<open>audioChunks\<close>, the VAD variables reset, a new
  recorder started, the level monitor started, and (\<^verbatim>\<open>finally\<close>) \<open>startingTurn\<close> cleared.
\<close>

definition startTurn_body :: "int \<Rightarrow> VoiceRecorder \<Rightarrow> VoiceRecorder" where
  "startTurn_body now s =
     (let s1 = s\<lparr>arrays := arrays s @ [ [] ], audioChunks := length (arrays s),
                 silenceStart := None, hasSpeechStarted := False, isSendingSilence := False,
                 turnStartTime := now,
                 recorders := recorders s @ [\<lparr>rstate = Recording, onstop = NoHandler\<rparr>],
                 mediaRecorder := Some (length (recorders s)),
                 isListening := True\<rparr>
      in (startLevelMonitoring s1)\<lparr>startingTurn := False\<rparr>)"

text \<open>
  The same block with the platform's part in it: \<^verbatim>\<open>new MediaRecorder(...)\<close> may throw, and
  so may \<^verbatim>\<open>mediaRecorder.start(100)\<close>. When the constructor throws, the assignments before
  it are done and no recorder exists; when \<^verbatim>\<open>start\<close> throws, the recorder exists, inactive,
  and \<open>mediaRecorder\<close> refers to it. In both cases \<open>isListening\<close> stays clear, the level
  monitor is not started, \<^verbatim>\<open>finally\<close> clears \<open>startingTurn\<close>, and the promise of
  \<^verbatim>\<open>startTurn\<close> rejects unobserved.
\<close>

datatype recorder_outcome = Started | ConstructorThrows | StartThrows

definition startTurn_try :: "recorder_outcome \<Rightarrow> int \<Rightarrow> VoiceRecorder \<Rightarrow> VoiceRecorder" where
  "startTurn_try oc now s =
     (case oc of
        Started \<Rightarrow> startTurn_body now s
      | ConstructorThrows \<Rightarrow>
          s\<lparr>arrays := arrays s @ [ [] ], audioChunks := length (arrays s),
            silenceStart := None, hasSpeechStarted := False, isSendingSilence := False,
            turnStartTime := now, startingTurn := False\<rparr>
      | StartThrows \<Rightarrow>
          s\<lparr>arrays := arrays s @ [ [] ], audioChunks := length (arrays s),
            silenceStart := None, hasSpeechStarted := False, isSendingSilence := False,
            turnStartTime := now,
            recorders := recorders s @ [\<lparr>rstate = Stopped, onstop = NoHandler\<rparr>],
            mediaRecorder := Some (length (recorders s)),
            startingTurn := False\<rparr>)"

text \<open>
  A call of \<^verbatim>\<open>startTurn\<close>, up to its end or to \<^verbatim>\<open>await acquireMic()\<close> when there is no
  stream yet.
\<close>

definition startTurn :: "recorder_outcome \<Rightarrow> int \<Rightarrow> VoiceRecorder \<Rightarrow> VoiceRecorder" where
  "startTurn oc now s =
     (if isListening s \<or> startingTurn s then s
      else (let s1 = s\<lparr>startingTurn := True\<rparr>
            in if \<not> stream s1 then s1\<lparr>acquiring := Suc (acquiring s1)\<rparr>
               else startTurn_try oc now s1))"

text \<open>
  \<^verbatim>\<open>getUserMedia\<close> settles for a waiting \<^verbatim>\<open>startTurn\<close>: the rest of \<^verbatim>\<open>acquireMic\<close>, then the
  rest of \<^verbatim>\<open>startTurn\<close>.
\<close>

datatype mic_outcome = Granted | NotAllowedError | OtherError

definition acquireMic_settled ::
  "mic_outcome \<Rightarrow> recorder_outcome \<Rightarrow> int \<Rightarrow> VoiceRecorder
     \<Rightarrow> VoiceRecorder \<times> callback list" where
  "acquireMic_settled outcome oc now s =
     (if acquiring s = 0 then (s, [])
      else (let s0 = s\<lparr>acquiring := acquiring s - 1\<rparr> in
            case outcome of
              Granted \<Rightarrow>
                (startTurn_try oc now
                   (s0\<lparr>stream := True, hasPermission := Some True, audioContext := True,
                       analyser := True\<rparr>),
                 [onSessionReady])
            | NotAllowedError \<Rightarrow>
                (s0\<lparr>hasPermission := Some False, startingTurn := False\<rparr>,
                 [onError (''Microphone access denied. Please allow microphone access '' @
                           ''in your browser settings.'')])
            | OtherError \<Rightarrow>
                (s0\<lparr>startingTurn := False\<rparr>,
                 [onError ''Could not access microphone. Please check your device settings.''])))"

text \<open>The \<^verbatim>\<open>$effect\<close>, run with the props \<open>sessionActive\<close> and \<open>paused\<close>.\<close>

definition effect ::
  "bool \<Rightarrow> bool \<Rightarrow> recorder_outcome \<Rightarrow> int \<Rightarrow> VoiceRecorder \<Rightarrow> VoiceRecorder" where
  "effect active isPaused oc now s =
     (if active \<and> \<not> isPaused then
        (if \<not> isListening s \<and> \<not> awaitingResponse s \<and> \<not> startingTurn s
         then startTurn oc now s else s)
      else if active \<and> isPaused then
        (let s1 = s\<lparr>awaitingResponse := False\<rparr>
         in if isListening s1 then stopTurn False s1 else s1)
      else teardownSession s)"

text \<open>
  \<^verbatim>\<open>updateLevel\<close>, the animation frame callback, at time \<open>now\<close> with the analyser's spectrum.
  \<^verbatim>\<open>!silenceStart\<close> holds for \<^verbatim>\<open>null\<close> and for 0.
\<close>

definition updateLevel :: "int \<Rightarrow> byte list \<Rightarrow> VoiceRecorder \<Rightarrow> VoiceRecorder" where
  "updateLevel now spectrum s =
     (if \<not> analyser s \<or> \<not> isListening s then s
      else
        (let s1 = s\<lparr>audioLevel := level spectrum\<rparr>;
             elapsed = now - turnStartTime s1;
             s2 = (if audioLevel s1 \<ge> SILENCE_THRESHOLD
                   then s1\<lparr>hasSpeechStarted := True, silenceStart := None,
                           isSendingSilence := False\<rparr>
                   else s1)
         in if hasSpeechStarted s2 \<and> elapsed > WARMUP_PERIOD \<and> elapsed > MIN_RECORDING_MS
               \<and> audioLevel s2 < SILENCE_THRESHOLD
            then
              (case silenceStart s2 of
                 None \<Rightarrow> requestAnimationFrame (s2\<lparr>silenceStart := Some now\<rparr>)
               | Some t \<Rightarrow>
                   if t = 0 then requestAnimationFrame (s2\<lparr>silenceStart := Some now\<rparr>)
                   else if now - t > SILENCE_TIMEOUT
                     then stopTurn True (s2\<lparr>isSendingSilence := False\<rparr>)
                   else if 2 * (now - t) > SILENCE_TIMEOUT
                     then requestAnimationFrame (s2\<lparr>isSendingSilence := True\<rparr>)
                   else requestAnimationFrame s2)
            else requestAnimationFrame s2))"

subsection \<open>Events\<close>

text \<open>
  What the platform may do to the component: run the effect (the props changed), settle
  \<^verbatim>\<open>getUserMedia\<close> (both at a time, and with what the recorder does if a turn is then
  started), run a requested animation frame, and fire \<^verbatim>\<open>dataavailable\<close>, \<^verbatim>\<open>stop\<close> or
  \<^verbatim>\<open>error\<close> on a recorder that has not stopped yet; \<open>Destroy\<close> is \<^verbatim>\<open>onDestroy\<close>.
\<close>

datatype event =
    Effect bool bool int recorder_outcome
  | MicSettled mic_outcome int recorder_outcome
  | AnimationFrame nat int "byte list"
  | DataAvailable nat Blob
  | RecorderStop nat
  | RecorderError nat
  | Destroy

definition live_recorder :: "VoiceRecorder \<Rightarrow> nat \<Rightarrow> bool" where
  "live_recorder s r = (r < length (recorders s) \<and> rstate (recorders s ! r) \<noteq> Stopped)"

text \<open>\<^verbatim>\<open>ondataavailable\<close>: \<^verbatim>\<open>if (event.data.size > 0) audioChunks.push(event.data)\<close>\<close>

definition ondataavailable :: "Blob \<Rightarrow> VoiceRecorder \<Rightarrow> VoiceRecorder" where
  "ondataavailable blob s =
     (if length blob > 0
      then s\<lparr>arrays := (arrays s)[audioChunks s := arrays s ! audioChunks s @ [blob] ]\<rparr>
      else s)"

text \<open>Running \<^verbatim>\<open>onstop\<close>: \<^verbatim>\<open>new Blob(capturedChunks)\<close> is the concatenation of the chunks.\<close>

definition run_onstop :: "VoiceRecorder \<Rightarrow> onstop_handler \<Rightarrow> callback list" where
  "run_onstop s h =
     (case h of
        SendOnStop a capturedSpeech \<Rightarrow>
          if length (arrays s ! a) > 0 \<and> capturedSpeech
          then [onRecordingComplete (concat (arrays s ! a))] else []
      | _ \<Rightarrow> [])"

definition mark_stopped :: "nat \<Rightarrow> VoiceRecorder \<Rightarrow> VoiceRecorder" where
  "mark_stopped r s =
     s\<lparr>recorders := (recorders s)[r := (recorders s ! r)\<lparr>rstate := Stopped\<rparr>]\<rparr>"

definition onerror :: "VoiceRecorder \<Rightarrow> VoiceRecorder" where
  "onerror s = s\<lparr>mediaRecorder := None, isListening := False, startingTurn := False\<rparr>"

fun step :: "VoiceRecorder \<Rightarrow> event \<Rightarrow> VoiceRecorder \<times> callback list" where
  "step s (Effect active isPaused now oc) = (effect active isPaused oc now s, [])"
| "step s (MicSettled outcome now oc) = acquireMic_settled outcome oc now s"
| "step s (AnimationFrame h now spectrum) =
     (if h \<in> set (frames s)
      then (updateLevel now spectrum (s\<lparr>frames := removeAll h (frames s)\<rparr>), [])
      else (s, []))"
| "step s (DataAvailable r blob) =
     (if live_recorder s r then (ondataavailable blob s, []) else (s, []))"
| "step s (RecorderStop r) =
     (if live_recorder s r
      then (mark_stopped r s, run_onstop s (onstop (recorders s ! r)))
      else (s, []))"
| "step s (RecorderError r) =
     (if live_recorder s r
      then (onerror s, [onError ''Recording failed. Please try again.''])
      else (s, []))"
| "step s Destroy = (teardownSession s, [])"

fun run :: "VoiceRecorder \<Rightarrow> event list \<Rightarrow> VoiceRecorder \<times> callback list" where
  "run s [] = (s, [])"
| "run s (ev # evs) =
     (let (s1, out1) = step s ev; (s2, out2) = run s1 evs in (s2, out1 @ out2))"

text \<open>The audio handed to \<^verbatim>\<open>onRecordingComplete\<close>, in order.\<close>

fun completions :: "callback list \<Rightarrow> Blob list" where
  "completions [] = []"
| "completions (onRecordingComplete b # cs) = b # completions cs"
| "completions (c # cs) = completions cs"

subsection \<open>One undisturbed turn\<close>

text \<open>
  A turn that nothing interrupts sees loudness samples (the pending animation frame runs
  at a time, on a spectrum) and chunks from its recorder \<open>r\<close>. After the turn has stopped
  there is no pending frame, and a sample does nothing.
\<close>

datatype turn_input = Sample int "byte list" | Chunk Blob

definition turn_step :: "nat \<Rightarrow> VoiceRecorder \<Rightarrow> turn_input \<Rightarrow> VoiceRecorder \<times> callback list" where
  "turn_step r s i =
     (case i of
        Sample now spectrum \<Rightarrow>
          (case animationFrame s of
             None \<Rightarrow> (s, [])
           | Some h \<Rightarrow> step s (AnimationFrame h now spectrum))
      | Chunk blob \<Rightarrow> step s (DataAvailable r blob))"

fun feed :: "nat \<Rightarrow> VoiceRecorder \<Rightarrow> turn_input list \<Rightarrow> VoiceRecorder \<times> callback list" where
  "feed r s [] = (s, [])"
| "feed r s (i # ins) =
     (let (s1, out1) = turn_step r s i; (s2, out2) = feed r s1 ins in (s2, out1 @ out2))"

text \<open>The samples of a turn: their times, and whether one is below the speech threshold.\<close>

fun sample_times :: "turn_input list \<Rightarrow> int list" where
  "sample_times [] = []"
| "sample_times (Sample now spectrum # ins) = now # sample_times ins"
| "sample_times (Chunk blob # ins) = sample_times ins"

fun silent :: "turn_input \<Rightarrow> bool" where
  "silent (Sample now spectrum) = (level spectrum < SILENCE_THRESHOLD)"
| "silent (Chunk blob) = True"

fun chunks_of :: "turn_input list \<Rightarrow> Blob list" where
  "chunks_of [] = []"
| "chunks_of (Sample now spectrum # ins) = chunks_of ins"
| "chunks_of (Chunk blob # ins) = (if length blob > 0 then blob # chunks_of ins else chunks_of ins)"




text \<open>
  The callbacks of a whole turn: those during its inputs, then those of the \<^verbatim>\<open>stop\<close> event
  of its recorder.
\<close>

definition turn_callbacks :: "nat \<Rightarrow> VoiceRecorder \<Rightarrow> turn_input list \<Rightarrow> callback list" where
  "turn_callbacks r s ins =
     snd (feed r s ins) @ snd (step (fst (feed r s ins)) (RecorderStop r))"

text \<open>
  The two stages of a turn with recorder \<open>r\<close>, array \<open>a\<close> and start time \<open>T\<close>: listening
  (the level monitor has a frame pending), and stopped by the silence detector (no frame
  pending, the recorder stopping with the closure that captured \<open>a\<close> and observed speech).
\<close>

definition turn_listening :: "nat \<Rightarrow> nat \<Rightarrow> int \<Rightarrow> VoiceRecorder \<Rightarrow> bool" where
  "turn_listening r a T s =
     (isListening s \<and> analyser s
      \<and> (case animationFrame s of None \<Rightarrow> False | Some h \<Rightarrow> h \<in> set (frames s))
      \<and> mediaRecorder s = Some r \<and> active_recorder s r
      \<and> audioChunks s = a \<and> a < length (arrays s) \<and> turnStartTime s = T)"

definition turn_declared :: "nat \<Rightarrow> nat \<Rightarrow> VoiceRecorder \<Rightarrow> bool" where
  "turn_declared r a s =
     ((case animationFrame s of None \<Rightarrow> True | Some h \<Rightarrow> h \<notin> set (frames s))
      \<and> r < length (recorders s)
      \<and> recorders s ! r = \<lparr>rstate = Stopping, onstop = SendOnStop a True\<rparr>
      \<and> audioChunks s = a \<and> a < length (arrays s))"

text \<open>
  What the silence detector knows in a turn that is not yet stopped: speech was heard;
  the silence timer, if it runs, was started at a positive time not after \<open>u\<close>; the
  timer does run.
\<close>

definition speech_heard :: "nat \<Rightarrow> nat \<Rightarrow> VoiceRecorder \<Rightarrow> bool" where
  "speech_heard r a s = (turn_declared r a s \<or> hasSpeechStarted s)"

definition timer_within :: "nat \<Rightarrow> nat \<Rightarrow> int \<Rightarrow> VoiceRecorder \<Rightarrow> bool" where
  "timer_within r a u s =
     (turn_declared r a s \<or>
      (case silenceStart s of None \<Rightarrow> True | Some t \<Rightarrow> 0 < t \<and> t \<le> u))"

definition timer_running :: "nat \<Rightarrow> nat \<Rightarrow> int \<Rightarrow> VoiceRecorder \<Rightarrow> bool" where
  "timer_running r a u s =
     (turn_declared r a s \<or>
      (hasSpeechStarted s \<and>
       (case silenceStart s of None \<Rightarrow> False | Some t \<Rightarrow> 0 < t \<and> t \<le> u)))"

text \<open>
  A component whose microphone has just been granted, and the same with its first turn
  started at time 0; a loud spectrum; speech at 100 ms, then silence sampled at 1600 ms and 3700 ms.
\<close>

definition mic_ready :: VoiceRecorder where
  "mic_ready =
     mounted\<lparr>startingTurn := True, stream := True, hasPermission := Some True,
             audioContext := True, analyser := True\<rparr>"

definition first_turn :: VoiceRecorder where
  "first_turn = fst (run mounted [Effect True False 0 Started, MicSettled Granted 0 Started])"

definition loud :: "byte list" where
  "loud = replicate 128 200"

definition speech_then_silence :: "turn_input list" where
  "speech_then_silence = [Sample 100 loud, Sample 1600 [], Sample 3700 [] ]"


text \<open>
  A session started, ended and started again before the microphone prompt of the first
  start is answered; then both requests for the microphone are granted.
\<close>

definition restarted_session :: "event list" where
  "restarted_session =
     [Effect True False 0 Started, Effect False False 10 Started, Effect True False 20 Started,
      MicSettled Granted 30 Started, MicSettled Granted 40 Started]"

section \<open>The protocol round trip\<close>


lemma byte_to_char_to_byte: "byte_to_char (char_to_byte c) = c"
  unfolding byte_to_char_def char_to_byte_def
  by (simp add: unat_of_nat take_bit_eq_mod)

lemma decode_encode: "TextDecoder_decode chunks = s" if "concat chunks = TextEncoder_encode s"
  using that by (simp add: TextDecoder_decode_def TextEncoder_encode_def byte_to_char_to_byte comp_def)

lemma indexOf_absent: "indexOf v b = - 1 \<longleftrightarrow> b \<notin> set v"
proof (induction v)
  case Nil show ?case by simp
next
  case (Cons x xs)
  have "indexOf xs b \<ge> - 1" for xs
    by (induction xs) (auto simp: Let_def)
  then have "indexOf xs b + 1 \<noteq> - 1" by (smt (verit))
  with Cons show ?case by (auto simp: Let_def)
qed

lemma indexOf_present:
  "b \<in> set v \<Longrightarrow> \<exists>i. indexOf v b = int i \<and> i < length v \<and> b \<notin> set (take i v) \<and> v = take i v @ b # drop (Suc i) v"
proof (induction v)
  case Nil then show ?case by simp
next
  case (Cons x xs)
  show ?case
  proof (cases "x = b")
    case True
    then show ?thesis by (intro exI[of _ 0]) simp
  next
    case False
    with Cons.prems have "b \<in> set xs" by simp
    from Cons.IH[OF this] obtain i where i: "indexOf xs b = int i" "i < length xs"
      "b \<notin> set (take i xs)" "xs = take i xs @ b # drop (Suc i) xs" by blast
    show ?thesis
      using False i by (intro exI[of _ "Suc i"]) (auto simp: Let_def)
  qed
qed

lemma first_split_unique:
  "a @ b # c = a' @ b # c' \<Longrightarrow> b \<notin> set a \<Longrightarrow> b \<notin> set a' \<Longrightarrow> a = a' \<and> c = c'"
proof (induction a arbitrary: a')
  case Nil then show ?case by (cases a') auto
next
  case (Cons x xs) then show ?case by (cases a') auto
qed

lemma prefix_before_first:
  "v @ r = h @ b # p \<Longrightarrow> b \<notin> set v \<Longrightarrow> \<exists>h'. h = v @ h' \<and> r = h' @ b # p"
proof (induction v arbitrary: h)
  case Nil then show ?case by simp
next
  case (Cons x xs) then show ?case by (cases h) auto
qed

lemma read_header_split:
  assumes "concat chunks = h @ 0x0a # p" and "0x0a \<notin> set h"
  shows "\<exists>tb fa rest. read_header chunks fin acc = Inr (tb, fa, (rest, fin), True)
           \<and> concat tb = concat acc @ h \<and> audio_bytes fa (rest, fin) = p"
  using assms
proof (induction chunks arbitrary: acc h)
  case Nil
  then show ?case by simp
next
  case (Cons v rest)
  show ?case
  proof (cases "(0x0a::byte) \<in> set v")
    case False
    then have idx: "indexOf v 0x0a = - 1" by (simp add: indexOf_absent)
    from Cons.prems(1) have "v @ concat rest = h @ 0x0a # p" by simp
    from prefix_before_first[OF this False] obtain h' where
      h': "h = v @ h'" "concat rest = h' @ 0x0a # p" by blast
    with Cons.prems(2) have "0x0a \<notin> set h'" by simp
    from Cons.IH[OF h'(2) this, of "acc @ [v]"] obtain tb fa rest' where
      "read_header rest fin (acc @ [v]) = Inr (tb, fa, (rest', fin), True)"
      "concat tb = concat (acc @ [v]) @ h'" "audio_bytes fa (rest', fin) = p" by blast
    with idx h'(1) show ?thesis by (simp add: Let_def)
  next
    case True
    from indexOf_present[OF this] obtain i where i: "indexOf v 0x0a = int i" "i < length v"
      "0x0a \<notin> set (take i v)" "v = take i v @ 0x0a # drop (Suc i) v" by blast
    from Cons.prems(1) i(4) have "take i v @ 0x0a # (drop (Suc i) v @ concat rest) = h @ 0x0a # p"
      by (metis append.assoc append_Cons concat.simps(2))
    from first_split_unique[OF this i(3) Cons.prems(2)]
    have eq: "take i v = h" "drop (Suc i) v @ concat rest = p" by auto
    have ne: "int i \<noteq> - 1" by simp
    have s1: "slice v 0 (int i) = take i v" by (simp add: slice_def)
    have s2: "slice_from v (int i + 1) = drop (Suc i) v"
      by (simp add: slice_from_def nat_add_distrib)
    have tb: "concat (if int i > 0 then acc @ [slice v 0 (int i)] else acc) = concat acc @ h"
      using eq(1) s1 by (cases i) auto
    have fa: "audio_bytes (if int i + 1 < int (length v) then Some (slice_from v (int i + 1)) else None) (rest, fin) = p"
      using eq(2) s2 i(2) by (auto simp: audio_bytes_def)
    show ?thesis
      using i(1) ne tb fa by (simp add: Let_def)
  qed
qed

lemma hi_yo_no_newline: "0x0a \<notin> set hi_yo_bytes"
  by (simp add: hi_yo_bytes_def hi_yo_def TextEncoder_encode_def char_to_byte_def)

lemma trim_yo: "trim ''yo'' = ''yo''"
  by code_simp

text \<open>
  C1. Let a response stream be the header \<^verbatim>\<open>{"text":"hi","transcript":"yo"}\<close>, one 0x0A
  byte and then any payload, cut into chunks in any way (inside the header, at the
  delimiter, inside the payload; empty chunks too), whatever ends the stream. The loop of
  \<^verbatim>\<open>processUserAudio\<close> finds the delimiter, the decoded and parsed header line has
  \<open>text = "hi"\<close> and \<open>transcript = "yo"\<close>, and \<open>firstAudioChunk\<close> followed by the chunks
  the reader still delivers is exactly the payload. \<^verbatim>\<open>processUserAudio\<close> itself, on this
  response, appends the messages "yo" of the user and "hi" of the assistant and hands
  that reader and first chunk to the player.
\<close>

theorem demux_roundtrip:
  "concat chunks = hi_yo_bytes @ [0x0a] @ payload \<Longrightarrow>
   \<exists>textByteChunks firstAudioChunk r.
       read_header chunks fin [] = Inr (textByteChunks, firstAudioChunk, r, True)
     \<and> parse_header flat_platform (decode flat_platform textByteChunks)
         = Inr \<lparr>h_text = Some ''hi'', h_transcript = Some ''yo''\<rparr>
     \<and> audio_bytes firstAudioChunk r = payload
     \<and> processUserAudio_response flat_platform st1 st2 (OkBody chunks fin) s
         = (s\<lparr>messages := messages s @
                [\<lparr>msg_id = fst st1, role = User, content = ''yo'', timestamp = snd st1\<rparr>,
                 \<lparr>msg_id = fst st2, role = Assistant, content = ''hi'', timestamp = snd st2\<rparr>],
              avatarState := Speaking\<rparr>,
            Playback r firstAudioChunk)"
proof -
  assume a: "concat chunks = hi_yo_bytes @ [0x0a] @ payload"
  then have "concat chunks = hi_yo_bytes @ 0x0a # payload" by simp
  from read_header_split[OF this hi_yo_no_newline, of fin "[]"] obtain tb fa rest where
    r: "read_header chunks fin [] = Inr (tb, fa, (rest, fin), True)"
       "concat tb = hi_yo_bytes" "audio_bytes fa (rest, fin) = payload" by auto
  from r(2) have "TextDecoder_decode tb = hi_yo"
    by (intro decode_encode) (simp add: hi_yo_bytes_def)
  moreover have "flat_header hi_yo = Inr \<lparr>h_text = Some ''hi'', h_transcript = Some ''yo''\<rparr>"
    by (simp add: flat_header_def hi_yo_def parse_flat_object_def)
  ultimately have p: "parse_header flat_platform (decode flat_platform tb)
      = Inr \<lparr>h_text = Some ''hi'', h_transcript = Some ''yo''\<rparr>"
    by (simp add: flat_platform_def)
  have "processUserAudio_response flat_platform st1 st2 (OkBody chunks fin) s
         = (s\<lparr>messages := messages s @
                [\<lparr>msg_id = fst st1, role = User, content = ''yo'', timestamp = snd st1\<rparr>,
                 \<lparr>msg_id = fst st2, role = Assistant, content = ''hi'', timestamp = snd st2\<rparr>],
              avatarState := Speaking\<rparr>,
            Playback (rest, fin) fa)"
    using r(1) p
    by (simp add: processUserAudio_response_def processUserAudio_try_def addMessage_def trim_yo)
  with r p show ?thesis by blast
qed

theorem demux_roundtrip_witness:
  "\<exists>textByteChunks firstAudioChunk r.
       read_header [take 7 hi_yo_bytes, drop 7 hi_yo_bytes @ [0x0a, 1], [0x0a, 2] ] Done []
         = Inr (textByteChunks, firstAudioChunk, r, True)
     \<and> parse_header flat_platform (decode flat_platform textByteChunks)
         = Inr \<lparr>h_text = Some ''hi'', h_transcript = Some ''yo''\<rparr>
     \<and> audio_bytes firstAudioChunk r = [1, 0x0a, 2]
     \<and> processUserAudio_response flat_platform (''a'', 1) (''b'', 2)
           (OkBody [take 7 hi_yo_bytes, drop 7 hi_yo_bytes @ [0x0a, 1], [0x0a, 2] ] Done) busy_store
         = (busy_store\<lparr>messages := messages busy_store @
                [\<lparr>msg_id = fst (''a'', 1::int), role = User, content = ''yo'',
                   timestamp = snd (''a'', 1::int)\<rparr>,
                 \<lparr>msg_id = fst (''b'', 2::int), role = Assistant, content = ''hi'',
                   timestamp = snd (''b'', 2::int)\<rparr>],
              avatarState := Speaking\<rparr>,
            Playback r firstAudioChunk)"
proof -
  have "concat [take 7 hi_yo_bytes, drop 7 hi_yo_bytes @ [0x0a, 1], [0x0a, 2] ]
          = hi_yo_bytes @ [0x0a] @ [1, 0x0a, 2]"
    by simp
  then show ?thesis
    by (rule demux_roundtrip)
qed


section \<open>The conversation store\<close>

text \<open>
  C10. A call of \<^verbatim>\<open>processUserAudio\<close> while \<open>isProcessing\<close> holds returns at the guard: no
  request is made and the store (messages, avatar state, error, \<open>isProcessing\<close>, playback
  handle, everything) is what it was.
\<close>

theorem reentry_is_noop:
  "isProcessing s \<Longrightarrow>
     processUserAudio_begin audioBlob s = (s, None)
   \<and> processUserAudio P st1 st2 resp settled audioBlob s = s"
  by (simp add: processUserAudio_begin_def processUserAudio_def)

theorem reentry_is_noop_witness:
  "isProcessing busy_store
   \<and> processUserAudio_begin [1, 2] busy_store = (busy_store, None)
   \<and> processUserAudio flat_platform (''a'', 1) (''b'', 2) OkNoBody None [1, 2] busy_store = busy_store"
  using reentry_is_noop [of busy_store "[1, 2]" flat_platform "(''a'', 1)" "(''b'', 2)" OkNoBody None]
  by (simp add: busy_store_def)

lemma empty_line:
  "textLine_of [(''text'', []), (''transcript'', [])] = TextEncoder_encode empty_header @ [0x0a]"
  by (simp add: textLine_of_def JSON_stringify_def quote_def quote_char_def empty_header_def
        TextEncoder_encode_def char_to_byte_def)

lemma empty_header_no_newline: "0x0a \<notin> set (TextEncoder_encode empty_header)"
  by (simp add: empty_header_def TextEncoder_encode_def char_to_byte_def)

lemma empty_header_fields:
  "flat_header empty_header = Inr \<lparr>h_text = Some [], h_transcript = Some []\<rparr>"
  by (simp add: flat_header_def empty_header_def parse_flat_object_def)

lemma trim_empty: "trim [] = []"
  by (simp add: trim_def white_space_def)

text \<open>
  C4. Client: when the header of the response parses and its transcript is empty or only
  white space (or absent), \<^verbatim>\<open>processUserAudio\<close> finishes without calling the player, with
  the messages untouched, \<open>isProcessing\<close> cleared and the avatar listening (idle when the
  session is no longer active). Server: when the transcription of the uploaded audio is
  empty or only white space, \<^verbatim>\<open>/process-audio\<close> answers with one chunk, the header line
  \<^verbatim>\<open>{"text":"","transcript":""}\<close> and its newline, and no byte after it.
\<close>

theorem empty_transcript_noop:
  assumes "read_header cs fin [] = Inr (textByteChunks, firstAudioChunk, r, found)"
      and "parse_header P (decode P textByteChunks) = Inr parsed"
      and "trim (or_default (h_transcript parsed) []) = []"
      and "audio_field f = Some audioFile"
      and "previousMessages_of parse_messages (messages_field f) = Inr previousMessages"
      and "transcribe ai audioFile = Inr transcription"
      and "trim transcription = []"
  shows "processUserAudio_response P st1 st2 (OkBody cs fin) s
           = (s\<lparr>avatarState := listening_or_idle s, isProcessing := False\<rparr>, Finished)
       \<and> process_audio_route ai pr parse_messages (Inr f)
           = Streamed [TextEncoder_encode empty_header @ [0x0a] ]"
  using assms
  by (simp add: processUserAudio_response_def processUserAudio_try_def processUserAudio_finally_def
        process_audio_route_def empty_line)

theorem empty_transcript_noop_witness:
  "processUserAudio_response flat_platform (''a'', 1) (''b'', 2)
       (OkBody [TextEncoder_encode empty_header @ [0x0a] ] Done) busy_store
     = (busy_store\<lparr>avatarState := Listening, isProcessing := False\<rparr>, Finished)
   \<and> process_audio_route (constant_ai None) no_prompts (\<lambda>j. Inr [])
        (Inr \<lparr>audio_field = Some [1, 2], messages_field = None\<rparr>)
     = Streamed [TextEncoder_encode empty_header @ [0x0a] ]"
proof -
  have rd: "read_header [TextEncoder_encode empty_header @ [0x0a] ] Done []
              = Inr ([TextEncoder_encode empty_header], None, ([], Done), True)"
    by code_simp
  have dec: "decode flat_platform [TextEncoder_encode empty_header] = empty_header"
    by (simp add: flat_platform_def decode_encode)
  have ph: "parse_header flat_platform (decode flat_platform [TextEncoder_encode empty_header])
              = Inr \<lparr>h_text = Some [], h_transcript = Some []\<rparr>"
    unfolding dec by (simp add: flat_platform_def empty_header_fields)
  have bl: "trim (or_default (h_transcript \<lparr>h_text = Some [], h_transcript = Some []\<rparr>) []) = []"
    by (simp add: trim_empty)
  have au: "audio_field \<lparr>audio_field = Some [1, 2], messages_field = None\<rparr> = Some [1, 2]"
    by simp
  have pm: "previousMessages_of (\<lambda>j. Inr []) (messages_field \<lparr>audio_field = Some [1, 2], messages_field = None\<rparr>) = Inr []"
    by (simp add: previousMessages_of_def)
  have tr: "transcribe (constant_ai None) [1, 2] = Inr []"
    by (simp add: constant_ai_def)
  show ?thesis
    using empty_transcript_noop [OF rd ph bl au pm tr trim_empty,
            of "(''a'', 1)" "(''b'', 2)" busy_store no_prompts]
    by (simp add: listening_or_idle_def busy_store_def)
qed

text \<open>
  C5. \<^verbatim>\<open>processUserAudio\<close> calls the player (with the reader and the first audio slice) in
  exactly one way: the response had a body, the header loop ended, the header line was
  decoded and parsed, its transcript is not blank, and the store then already holds the
  two new messages, the user's transcript first and the assistant's reply second, with
  the avatar speaking. So within a turn no byte reaches the player before the header is
  parsed and both messages are appended, and every turn with a non-empty transcript
  reaches the player in that state.
\<close>

theorem messages_before_playback:
  "processUserAudio_response P st1 st2 resp s = (s', Playback r firstAudioChunk) \<longleftrightarrow>
     (\<exists>cs fin textByteChunks found parsed.
         resp = OkBody cs fin
       \<and> read_header cs fin [] = Inr (textByteChunks, firstAudioChunk, r, found)
       \<and> parse_header P (decode P textByteChunks) = Inr parsed
       \<and> trim (or_default (h_transcript parsed) []) \<noteq> []
       \<and> s' = s\<lparr>messages := messages s @
                   [\<lparr>msg_id = fst st1, role = User,
                      content = or_default (h_transcript parsed) [], timestamp = snd st1\<rparr>,
                    \<lparr>msg_id = fst st2, role = Assistant,
                      content = or_default (h_text parsed) [], timestamp = snd st2\<rparr>],
                 avatarState := Speaking\<rparr>)"
  by (auto simp: processUserAudio_response_def processUserAudio_try_def Let_def addMessage_def
        split: response.splits json_body.splits sum.splits prod.splits if_splits phase.splits)

theorem messages_before_playback_witness:
  "\<exists>cs fin textByteChunks found parsed.
         fine_response = OkBody cs fin
       \<and> read_header cs fin [] = Inr (textByteChunks, Some [7, 8], ([ [9] ], Done), found)
       \<and> parse_header flat_platform (decode flat_platform textByteChunks) = Inr parsed
       \<and> trim (or_default (h_transcript parsed) []) \<noteq> []
       \<and> busy_store\<lparr>messages :=
            [\<lparr>msg_id = ''a'', role = User, content = ''I feel fine'', timestamp = 1\<rparr>,
             \<lparr>msg_id = ''b'', role = Assistant, content = ''That is wonderful to hear.'', timestamp = 2\<rparr>],
            avatarState := Speaking\<rparr>
          = busy_store\<lparr>messages := messages busy_store @
                   [\<lparr>msg_id = fst (''a'', 1::int), role = User,
                      content = or_default (h_transcript parsed) [], timestamp = snd (''a'', 1::int)\<rparr>,
                    \<lparr>msg_id = fst (''b'', 2::int), role = Assistant,
                      content = or_default (h_text parsed) [], timestamp = snd (''b'', 2::int)\<rparr>],
                 avatarState := Speaking\<rparr>"
proof -
  have "processUserAudio_response flat_platform (''a'', 1) (''b'', 2) fine_response busy_store
      = (busy_store\<lparr>messages :=
            [\<lparr>msg_id = ''a'', role = User, content = ''I feel fine'', timestamp = 1\<rparr>,
             \<lparr>msg_id = ''b'', role = Assistant, content = ''That is wonderful to hear.'', timestamp = 2\<rparr>],
            avatarState := Speaking\<rparr>,
         Playback ([ [9] ], Done) (Some [7, 8]))"
    by code_simp
  then show ?thesis
    by (rule iffD1 [OF messages_before_playback])
qed


text \<open>
  C7. When the greeting request fails (a status that is not ok, no body, or anything
  thrown before the player is called), \<^verbatim>\<open>requestGreeting\<close> records an error message,
  appends the one hardcoded fallback message of the assistant and nothing else, and
  leaves the avatar listening while the session is active (idle otherwise). When the
  failure is the player's (its promise rejects), the same happens to the store of that
  moment.
\<close>

theorem greeting_failure_fallback:
  assumes "greeting_request_fails P resp"
  shows "(\<exists>msg. requestGreeting_response P st st' resp s
            = (s\<lparr>error := Some msg,
                 messages := messages s @
                   [\<lparr>msg_id = fst st', role = Assistant, content = greeting_fallback,
                      timestamp = snd st'\<rparr>],
                 avatarState := listening_or_idle s\<rparr>, Finished))
       \<and> requestGreeting_played st' (Some e) s
            = s\<lparr>error := Some (message_or e ''Could not start conversation''),
                messages := messages s @
                   [\<lparr>msg_id = fst st', role = Assistant, content = greeting_fallback,
                      timestamp = snd st'\<rparr>],
                avatarState := listening_or_idle s\<rparr>"
  using assms
  by (auto simp: greeting_request_fails_def requestGreeting_response_def requestGreeting_try_def
        requestGreeting_catch_def requestGreeting_finally_def requestGreeting_played_def
        addMessage_def listening_or_idle_def Let_def
        split: response.splits json_body.splits sum.splits prod.splits)

theorem greeting_failure_fallback_witness:
  "greeting_request_fails flat_platform (NotOk (BodyError (Some ''quota'')))
   \<and> (\<exists>msg. requestGreeting_response flat_platform (''a'', 1) (''b'', 2)
              (NotOk (BodyError (Some ''quota''))) (startSession busy_store)
            = ((startSession busy_store)\<lparr>error := Some msg,
                 messages := messages (startSession busy_store) @
                   [\<lparr>msg_id = ''b'', role = Assistant, content = greeting_fallback,
                      timestamp = 2\<rparr>],
                 avatarState := Listening\<rparr>, Finished))"
proof -
  have f: "greeting_request_fails flat_platform (NotOk (BodyError (Some ''quota'')))"
    by (simp add: greeting_request_fails_def)
  show ?thesis
    using f greeting_failure_fallback [OF f, of "(''a'', 1)" "(''b'', 2)" "startSession busy_store"]
    by (simp add: listening_or_idle_def startSession_def)
qed

section \<open>The server routes\<close>

lemma route_catch_shape:
  "route_catch e d = JsonResponse 500 b \<and> member b ''error'' = Some (JStr (message_or e d))
     \<and> member b ''success'' = Some (JBool False)"
  if "b = JObj [(''error'', JStr (message_or e d)), (''success'', JBool False)]"
  using that by (simp add: route_catch_def)

lemma greeting_route_failures:
  "greeting_route ai pr = JsonResponse status b \<Longrightarrow>
     status = 500 \<and> (\<exists>m. member b ''error'' = Some (JStr m)) \<and> member b ''success'' = Some (JBool False)"
  by (auto simp: greeting_route_def route_catch_def Let_def split: sum.splits)

lemma analyze_route_failures:
  "analyze_route ai pr parse t = JsonResponse status b \<Longrightarrow> status \<noteq> 200 \<Longrightarrow>
     status = 500 \<and> (\<exists>m. member b ''error'' = Some (JStr m)) \<and> member b ''success'' = Some (JBool False)"
  by (auto simp: analyze_route_def route_catch_def Let_def split: sum.splits)

lemma process_audio_route_failures:
  "process_audio_route ai pr pm fd = JsonResponse status b \<Longrightarrow>
     (status = 500 \<and> (\<exists>m. member b ''error'' = Some (JStr m)) \<and> member b ''success'' = Some (JBool False))
   \<or> (status = 400 \<and> b = JObj [(''error'', JStr ''No audio file provided'')]
        \<and> (\<exists>f. fd = Inr f \<and> audio_field f = None))"
  by (auto simp: process_audio_route_def route_catch_def Let_def split: sum.splits option.splits if_splits)

text \<open>
  C8. A \<^verbatim>\<open>/process-audio\<close> request whose form has no \<^verbatim>\<open>audio\<close> file is answered with status
  400 and the body \<^verbatim>\<open>{ error: 'No audio file provided' }\<close>: the body has no member
  \<^verbatim>\<open>success\<close>. (Every other failure of the three routes goes through the \<^verbatim>\<open>catch\<close> block and
  carries \<^verbatim>\<open>error\<close> and \<^verbatim>\<open>success: false\<close>, see the three lemmas above.)
\<close>

theorem missing_audio_file_response:
  "process_audio_route ai pr parse_messages (Inr \<lparr>audio_field = None, messages_field = m\<rparr>)
     = JsonResponse 400 (JObj [(''error'', JStr ''No audio file provided'')])
   \<and> member (JObj [(''error'', JStr ''No audio file provided'')]) ''success'' = None"
  by (simp add: process_audio_route_def)

text \<open>
  C9, as the claim states it, fails: with a completion that has no content the route
  parses \<^verbatim>\<open>'{}'\<close> and answers \<^verbatim>\<open>success: true\<close> with the empty object as analysis.
\<close>

theorem analyze_shape_counterexample:
  "analyze_route no_content_ai no_prompts flat_JSON_parse ''hello''
     = JsonResponse 200 (JObj [(''analysis'', JObj []), (''success'', JBool True)])
   \<and> \<not> StructuredReport_shape (JObj [])"
  by (simp add: analyze_route_def no_content_ai_def constant_ai_def no_prompts_def
        flat_JSON_parse_def parse_flat_object_def StructuredReport_shape_def severity_ok_def)

text \<open>
  C9, amended. \<^verbatim>\<open>/analyze\<close> answers \<^verbatim>\<open>success: true\<close> with an analysis exactly when the
  completion call returned and the completion text (\<^verbatim>\<open>'{}'\<close> when it has no content) parsed
  as JSON; the analysis returned is that parsed value, unchanged and unchecked.
\<close>

theorem analyze_returns_parsed_completion:
  "analyze_route ai pr JSON_parse transcript
       = JsonResponse 200 (JObj [(''analysis'', analysis), (''success'', JBool True)]) \<longleftrightarrow>
   (\<exists>c. chat ai [(''system'', ANALYSIS_SYSTEM_MESSAGE pr),
                  (''user'', getAnalysisPrompt pr transcript)] = Inr c
       \<and> JSON_parse (or_default c ''{}'') = Inr analysis)"
  by (auto simp: analyze_route_def route_catch_def Let_def split: sum.splits)

theorem analyze_returns_parsed_completion_witness:
  "\<exists>c. chat (constant_ai (Some catastrophic))
            [(''system'', ANALYSIS_SYSTEM_MESSAGE no_prompts),
             (''user'', getAnalysisPrompt no_prompts ''hello'')] = Inr c
       \<and> flat_JSON_parse (or_default c ''{}'')
           = Inr (JObj [(''overallSeverity'', JStr ''catastrophic'')])"
proof -
  have "analyze_route (constant_ai (Some catastrophic)) no_prompts flat_JSON_parse ''hello''
       = JsonResponse 200 (JObj [(''analysis'', JObj [(''overallSeverity'', JStr ''catastrophic'')]),
                                 (''success'', JBool True)])"
    by (simp add: analyze_route_def constant_ai_def no_prompts_def catastrophic_def
          flat_JSON_parse_def parse_flat_object_def)
  then show ?thesis
    by (rule iffD1 [OF analyze_returns_parsed_completion])
qed

section \<open>The voice recorder\<close>

lemma level_silence: "level [] = 0"
  by (simp add: level_def getByteFrequencyData_def Let_def sum_list_replicate)

lemma level_loud: "level loud = 100"
  by (simp add: level_def getByteFrequencyData_def Let_def loud_def frequencyBinCount_def
        sum_list_replicate)

lemma first_turn_eq: "first_turn = startTurn_body 0 mic_ready"
  by (simp add: first_turn_def effect_def startTurn_def startTurn_try_def
        acquireMic_settled_def Let_def
        mounted_def mic_ready_def)


text \<open>
  Two calls of \<^verbatim>\<open>startTurn\<close> with nothing in between: when the first call started a turn
  or waits for the microphone, the second one is refused by the guard, and so is every
  call made while \<open>isListening\<close> or \<open>startingTurn\<close> is set. The same for two runs of the
  effect with the session active and not paused.
\<close>

lemma startTurn_twice:
  "startTurn oc' now' (startTurn Started now s) = startTurn Started now s
   \<and> effect True False oc' now' (effect True False Started now s)
       = effect True False Started now s"
  by (simp add: startTurn_def effect_def startTurn_try_def startTurn_body_def
        startLevelMonitoring_def requestAnimationFrame_def Let_def)

lemma startTurn_guard: "isListening s \<or> startingTurn s \<Longrightarrow> startTurn oc now s = s"
  by (simp add: startTurn_def)

text \<open>
  C6 fails on the code. The session starts and \<^verbatim>\<open>startTurn\<close> waits at
  \<^verbatim>\<open>await acquireMic()\<close>; the session ends, and \<^verbatim>\<open>teardownSession\<close> clears \<open>startingTurn\<close>
  although that call still waits; the session starts again, and the guard
  \<^verbatim>\<open>if (isListening || startingTurn) return\<close> lets a second \<^verbatim>\<open>startTurn\<close> through while the
  first is still starting. When both requests for the microphone are granted, each call
  goes on: two recorders are recording and two animation frames of the level monitor are
  pending.
\<close>

theorem restart_while_starting_runs_two_turns:
  "startingTurn (fst (run mounted [Effect True False 0 Started]))
   \<and> acquiring (fst (run mounted [Effect True False 0 Started, Effect False False 10 Started])) = 1
   \<and> \<not> startingTurn
         (fst (run mounted [Effect True False 0 Started, Effect False False 10 Started]))
   \<and> recorders (fst (run mounted restarted_session))
       = [\<lparr>rstate = Recording, onstop = NoHandler\<rparr>, \<lparr>rstate = Recording, onstop = NoHandler\<rparr>]
   \<and> frames (fst (run mounted restarted_session)) = [1, 2]
   \<and> isListening (fst (run mounted restarted_session))"
  by (simp add: restarted_session_def mounted_def effect_def startTurn_def startTurn_try_def
        startTurn_body_def acquireMic_settled_def teardownSession_def stopLevelMonitoring_def
        startLevelMonitoring_def requestAnimationFrame_def Let_def)


lemma no_speech_stopLevelMonitoring [simp]:
  "hasSpeechStarted (stopLevelMonitoring s) = hasSpeechStarted s"
  "recorders (stopLevelMonitoring s) = recorders s"
  "mediaRecorder (stopLevelMonitoring s) = mediaRecorder s"
  "audioChunks (stopLevelMonitoring s) = audioChunks s"
  by (simp_all add: stopLevelMonitoring_def split: option.splits)










lemma completions_append [simp]: "completions (xs @ ys) = completions xs @ completions ys"
  by (induction xs rule: completions.induct) auto




lemma chunk_step:
  assumes "live_recorder s r" and "audioChunks s = a" and "a < length (arrays s)"
  shows "turn_step r s (Chunk b) = (ondataavailable b s, [])"
    and "arrays (ondataavailable b s) ! a = arrays s ! a @ chunks_of [Chunk b]"
  using assms by (simp_all add: turn_step_def ondataavailable_def)

lemma ondataavailable_fields [simp]:
  "isListening (ondataavailable b s) = isListening s"
  "analyser (ondataavailable b s) = analyser s"
  "animationFrame (ondataavailable b s) = animationFrame s"
  "frames (ondataavailable b s) = frames s"
  "mediaRecorder (ondataavailable b s) = mediaRecorder s"
  "recorders (ondataavailable b s) = recorders s"
  "audioChunks (ondataavailable b s) = audioChunks s"
  "length (arrays (ondataavailable b s)) = length (arrays s)"
  "turnStartTime (ondataavailable b s) = turnStartTime s"
  "hasSpeechStarted (ondataavailable b s) = hasSpeechStarted s"
  "silenceStart (ondataavailable b s) = silenceStart s"
  by (simp_all add: ondataavailable_def)

lemma sample_step:
  fixes now :: int and d :: "byte list"
  assumes L: "turn_listening r a T s"
  defines "s' \<equiv> fst (turn_step r s (Sample now d))"
    and "sp \<equiv> hasSpeechStarted s \<or> level d \<ge> SILENCE_THRESHOLD"
    and "ss \<equiv> (if level d \<ge> SILENCE_THRESHOLD then None else silenceStart s)"
  defines "guard \<equiv> sp \<and> now - T > WARMUP_PERIOD \<and> now - T > MIN_RECORDING_MS \<and> level d < SILENCE_THRESHOLD"
  shows "snd (turn_step r s (Sample now d)) = []"
    and "arrays s' = arrays s"
    and "guard \<Longrightarrow> ss = Some t \<Longrightarrow> t \<noteq> 0 \<Longrightarrow> now - t > SILENCE_TIMEOUT \<Longrightarrow> turn_declared r a s'"
    and "\<not> (guard \<and> (\<exists>t. ss = Some t \<and> t \<noteq> 0 \<and> now - t > SILENCE_TIMEOUT)) \<Longrightarrow>
           turn_listening r a T s' \<and> hasSpeechStarted s' = sp
           \<and> silenceStart s' = (if guard \<and> (ss = None \<or> ss = Some 0) then Some now else ss)"
proof -
  from L obtain h where h: "animationFrame s = Some h" "h \<in> set (frames s)"
    by (auto simp: turn_listening_def split: option.splits)
  from L have f: "isListening s" "analyser s" "mediaRecorder s = Some r" "active_recorder s r"
    "audioChunks s = a" "a < length (arrays s)" "turnStartTime s = T"
    by (simp_all add: turn_listening_def)
  have st: "turn_step r s (Sample now d) = (updateLevel now d (s\<lparr>frames := removeAll h (frames s)\<rparr>), [])"
    using h by (simp add: turn_step_def)
  show "snd (turn_step r s (Sample now d)) = []" by (simp add: st)
  show "arrays s' = arrays s"
    unfolding s'_def st using f h
    by (simp add: updateLevel_def requestAnimationFrame_def stopTurn_def stopLevelMonitoring_def
          stop_with_def Let_def active_recorder_def split: option.splits)
  show "turn_declared r a s'" if "guard" "ss = Some t" "t \<noteq> 0" "now - t > SILENCE_TIMEOUT"
    using that f h unfolding s'_def st guard_def sp_def ss_def
    by (auto simp: updateLevel_def stopTurn_def stopLevelMonitoring_def
          stop_with_def Let_def active_recorder_def turn_declared_def split: if_splits)
  show "turn_listening r a T s' \<and> hasSpeechStarted s' = sp
           \<and> silenceStart s' = (if guard \<and> (ss = None \<or> ss = Some 0) then Some now else ss)"
    if "\<not> (guard \<and> (\<exists>t. ss = Some t \<and> t \<noteq> 0 \<and> now - t > SILENCE_TIMEOUT))"
    using that f h unfolding s'_def st guard_def sp_def ss_def
    by (auto simp: updateLevel_def requestAnimationFrame_def Let_def active_recorder_def
          turn_listening_def split: option.splits)
qed

lemma declared_step:
  assumes D: "turn_declared r a s"
  shows "snd (turn_step r s i) = []"
    and "turn_declared r a (fst (turn_step r s i))"
    and "arrays (fst (turn_step r s i)) ! a = arrays s ! a @ chunks_of [i]"
proof -
  from D have lr: "live_recorder s r" and ac: "audioChunks s = a" "a < length (arrays s)"
    by (simp_all add: turn_declared_def live_recorder_def)
  have "snd (turn_step r s i) = [] \<and> turn_declared r a (fst (turn_step r s i))
        \<and> arrays (fst (turn_step r s i)) ! a = arrays s ! a @ chunks_of [i]"
  proof (cases i)
    case (Sample now d)
    with D show ?thesis
      by (auto simp: turn_step_def turn_declared_def split: option.splits)
  next
    case (Chunk b)
    with D chunk_step [OF lr ac, of b] show ?thesis
      by (simp add: turn_declared_def split: option.splits)
  qed
  then show "snd (turn_step r s i) = []"
    and "turn_declared r a (fst (turn_step r s i))"
    and "arrays (fst (turn_step r s i)) ! a = arrays s ! a @ chunks_of [i]"
    by simp_all
qed

lemma listening_chunk_step:
  assumes L: "turn_listening r a T s"
  shows "snd (turn_step r s (Chunk b)) = []"
    and "turn_listening r a T (fst (turn_step r s (Chunk b)))"
    and "arrays (fst (turn_step r s (Chunk b))) ! a = arrays s ! a @ chunks_of [Chunk b]"
    and "hasSpeechStarted (fst (turn_step r s (Chunk b))) = hasSpeechStarted s"
    and "silenceStart (fst (turn_step r s (Chunk b))) = silenceStart s"
proof -
  from L have lr: "live_recorder s r" and ac: "audioChunks s = a" "a < length (arrays s)"
    by (simp_all add: turn_listening_def live_recorder_def active_recorder_def)
  note c = chunk_step [OF lr ac, of b]
  show "snd (turn_step r s (Chunk b)) = []" by (simp add: c)
  show "turn_listening r a T (fst (turn_step r s (Chunk b)))"
    using L by (simp add: c turn_listening_def active_recorder_def split: option.splits)
  show "arrays (fst (turn_step r s (Chunk b))) ! a = arrays s ! a @ chunks_of [Chunk b]"
    using c by simp
  show "hasSpeechStarted (fst (turn_step r s (Chunk b))) = hasSpeechStarted s" by (simp add: c)
  show "silenceStart (fst (turn_step r s (Chunk b))) = silenceStart s" by (simp add: c)
qed

lemma turn_step_inv:
  assumes "turn_listening r a T s \<or> turn_declared r a s"
  shows "snd (turn_step r s i) = []"
    and "turn_listening r a T (fst (turn_step r s i)) \<or> turn_declared r a (fst (turn_step r s i))"
    and "arrays (fst (turn_step r s i)) ! a = arrays s ! a @ chunks_of [i]"
proof -
  have "snd (turn_step r s i) = []
      \<and> (turn_listening r a T (fst (turn_step r s i)) \<or> turn_declared r a (fst (turn_step r s i)))
      \<and> arrays (fst (turn_step r s i)) ! a = arrays s ! a @ chunks_of [i]"
  proof (cases "turn_declared r a s")
    case True
    then show ?thesis using declared_step [OF True, of i] by simp
  next
    case False
    with assms have L: "turn_listening r a T s" by simp
    show ?thesis
    proof (cases i)
      case (Chunk b)
      then show ?thesis using listening_chunk_step [OF L, of b] by simp
    next
      case (Sample now d)
      show ?thesis
        using sample_step(1,2) [OF L, where now=now and d=d]
          sample_step(3) [OF L, where now=now and d=d]
          sample_step(4) [OF L, where now=now and d=d] Sample
        by (cases "level d \<ge> SILENCE_THRESHOLD"; cases "silenceStart s") (auto split: if_splits)
    qed
  qed
  then show "snd (turn_step r s i) = []"
    and "turn_listening r a T (fst (turn_step r s i)) \<or> turn_declared r a (fst (turn_step r s i))"
    and "arrays (fst (turn_step r s i)) ! a = arrays s ! a @ chunks_of [i]"
    by simp_all
qed

lemma chunks_of_Cons: "chunks_of (i # ins) = chunks_of [i] @ chunks_of ins"
  by (cases i) auto

lemma chunks_of_append [simp]: "chunks_of (xs @ ys) = chunks_of xs @ chunks_of ys"
  by (induction xs rule: chunks_of.induct) auto

lemma feed_append:
  "feed r s (xs @ ys) =
     (fst (feed r (fst (feed r s xs)) ys), snd (feed r s xs) @ snd (feed r (fst (feed r s xs)) ys))"
  by (induction xs arbitrary: s) (auto simp: case_prod_unfold Let_def)

lemma feed_Cons:
  "feed r s (i # ins) =
     (fst (feed r (fst (turn_step r s i)) ins),
      snd (turn_step r s i) @ snd (feed r (fst (turn_step r s i)) ins))"
  by (simp add: case_prod_unfold Let_def)

lemma feed_inv:
  assumes "turn_listening r a T s \<or> turn_declared r a s"
  shows "snd (feed r s ins) = []
       \<and> (turn_listening r a T (fst (feed r s ins)) \<or> turn_declared r a (fst (feed r s ins)))
       \<and> arrays (fst (feed r s ins)) ! a = arrays s ! a @ chunks_of ins"
  using assms
proof (induction ins arbitrary: s)
  case Nil
  then show ?case by simp
next
  case (Cons i ins)
  note st = turn_step_inv [OF Cons.prems, of i]
  from Cons.IH [OF st(2)] st(1,3) show ?case
    by (simp add: feed_Cons chunks_of_Cons [of i ins] del: feed.simps)
qed

lemma feed_declared:
  assumes "turn_declared r a s"
  shows "turn_declared r a (fst (feed r s ins))"
  using assms
proof (induction ins arbitrary: s)
  case Nil
  then show ?case by simp
next
  case (Cons i ins)
  from Cons.IH [OF declared_step(2) [OF Cons.prems, of i] ] show ?case
    by (simp add: feed_Cons del: feed.simps)
qed

lemma step_heard:
  assumes I: "turn_listening r a T s \<or> turn_declared r a s"
    and H: "speech_heard r a s \<or> \<not> silent i"
  shows "speech_heard r a (fst (turn_step r s i))"
proof (cases "turn_declared r a s")
  case True
  then show ?thesis using declared_step(2) [OF True, of i] by (simp add: speech_heard_def)
next
  case False
  with I have L: "turn_listening r a T s" by simp
  show ?thesis
  proof (cases i)
    case (Chunk b)
    with H False listening_chunk_step(4) [OF L, of b] show ?thesis
      by (simp add: speech_heard_def)
  next
    case (Sample now d)
    with H False sample_step(3) [OF L, where now=now and d=d]
      sample_step(4) [OF L, where now=now and d=d]
    show ?thesis
      by (cases "level d \<ge> SILENCE_THRESHOLD"; cases "silenceStart s")
         (auto simp: speech_heard_def split: if_splits)
  qed
qed

lemma feed_heard:
  assumes "turn_listening r a T s \<or> turn_declared r a s"
    and "speech_heard r a s \<or> \<not> list_all silent ins"
  shows "speech_heard r a (fst (feed r s ins))"
  using assms
proof (induction ins arbitrary: s)
  case Nil
  then show ?case by simp
next
  case (Cons i ins)
  note inv = turn_step_inv(2) [OF Cons.prems(1), of i]
  show ?case
  proof (cases "speech_heard r a s \<or> \<not> silent i")
    case True
    from step_heard [OF Cons.prems(1) True] Cons.IH [OF inv] show ?thesis
      by (simp add: feed_Cons del: feed.simps)
  next
    case False
    with Cons.prems(2) have "\<not> list_all silent ins" by simp
    with Cons.IH [OF inv] show ?thesis by (simp add: feed_Cons del: feed.simps)
  qed
qed

lemma timer_within_mono: "timer_within r a u s \<Longrightarrow> u \<le> v \<Longrightarrow> timer_within r a v s"
  by (auto simp: timer_within_def split: option.splits)

lemma step_within:
  assumes I: "turn_listening r a T s \<or> turn_declared r a s"
    and T: "0 \<le> T"
    and W: "timer_within r a u s"
    and U: "u \<le> now"
  shows "timer_within r a now (fst (turn_step r s (Sample now d)))"
proof (cases "turn_declared r a s")
  case True
  then show ?thesis using declared_step(2) [OF True, of "Sample now d"] by (simp add: timer_within_def)
next
  case False
  with I have L: "turn_listening r a T s" by simp
  define guard where "guard \<longleftrightarrow> (hasSpeechStarted s \<or> level d \<ge> SILENCE_THRESHOLD)
      \<and> now - T > WARMUP_PERIOD \<and> now - T > MIN_RECORDING_MS \<and> level d < SILENCE_THRESHOLD"
  define ss where "ss = (if level d \<ge> SILENCE_THRESHOLD then None else silenceStart s)"
  have ss: "ss = None \<or> (\<exists>t. ss = Some t \<and> 0 < t \<and> t \<le> now)"
    using False W U by (auto simp: ss_def timer_within_def split: option.splits)
  have pos: "guard \<Longrightarrow> 0 < now" using T by (simp add: guard_def WARMUP_PERIOD_def)
  show ?thesis
  proof (cases "guard \<and> (\<exists>t. ss = Some t \<and> t \<noteq> 0 \<and> now - t > SILENCE_TIMEOUT)")
    case True
    then obtain t where "guard" "ss = Some t" "t \<noteq> 0" "now - t > SILENCE_TIMEOUT" by blast
    then have "turn_declared r a (fst (turn_step r s (Sample now d)))"
      using sample_step(3) [OF L, where now=now and d=d and t=t]
      unfolding guard_def ss_def by blast
    then show ?thesis by (simp add: timer_within_def)
  next
    case False
    then have "silenceStart (fst (turn_step r s (Sample now d)))
                 = (if guard \<and> (ss = None \<or> ss = Some 0) then Some now else ss)"
      using sample_step(4) [OF L, where now=now and d=d]
      unfolding guard_def ss_def by blast
    with ss pos show ?thesis
      by (auto simp: timer_within_def)
  qed
qed

lemma chunk_within:
  assumes I: "turn_listening r a T s \<or> turn_declared r a s"
    and W: "timer_within r a u s"
  shows "timer_within r a u (fst (turn_step r s (Chunk b)))"
proof (cases "turn_declared r a s")
  case True
  then show ?thesis using declared_step(2) [OF True, of "Chunk b"] by (simp add: timer_within_def)
next
  case False
  with I have L: "turn_listening r a T s" by simp
  from False W listening_chunk_step(5) [OF L, of b] show ?thesis
    by (simp add: timer_within_def)
qed

lemma feed_within:
  assumes "turn_listening r a T s \<or> turn_declared r a s"
    and "0 \<le> T"
    and "timer_within r a u s"
    and "sorted (u # sample_times ins @ [v])"
  shows "timer_within r a v (fst (feed r s ins))"
  using assms
proof (induction ins arbitrary: s u)
  case Nil
  then show ?case by (simp add: timer_within_mono)
next
  case (Cons i ins)
  note inv = turn_step_inv(2) [OF Cons.prems(1), of i]
  show ?case
  proof (cases i)
    case (Chunk b)
    from chunk_within [OF Cons.prems(1,3), of b] Chunk
    have "timer_within r a u (fst (turn_step r s i))" by simp
    moreover from Cons.prems(4) Chunk have "sorted (u # sample_times ins @ [v])" by simp
    ultimately show ?thesis
      using Cons.IH [OF inv Cons.prems(2)] by (simp add: feed_Cons del: feed.simps)
  next
    case (Sample now d)
    with Cons.prems(4) have u: "u \<le> now" and srt: "sorted (now # sample_times ins @ [v])"
      by simp_all
    from step_within [OF Cons.prems(1,2,3) u, of d] Sample
    have "timer_within r a now (fst (turn_step r s i))" by simp
    from Cons.IH [OF inv Cons.prems(2) this srt] show ?thesis
      by (simp add: feed_Cons del: feed.simps)
  qed
qed

lemma step_start_timer:
  assumes I: "turn_listening r a T s \<or> turn_declared r a s"
    and T: "0 \<le> T"
    and H: "speech_heard r a s"
    and W: "timer_within r a t1 s"
    and S: "silent (Sample t1 d1)"
    and G: "t1 - T > WARMUP_PERIOD" "t1 - T > MIN_RECORDING_MS"
  shows "timer_running r a t1 (fst (turn_step r s (Sample t1 d1)))"
proof (cases "turn_declared r a s")
  case True
  then show ?thesis using declared_step(2) [OF True, of "Sample t1 d1"] by (simp add: timer_running_def)
next
  case False
  with I have L: "turn_listening r a T s" by simp
  from False H have sp: "hasSpeechStarted s" by (simp add: speech_heard_def)
  from S have lv: "level d1 < SILENCE_THRESHOLD" by simp
  from G T have pos: "0 < t1" by (simp add: WARMUP_PERIOD_def)
  show ?thesis
  proof (cases "silenceStart s")
    case None
    with sp lv G sample_step(4) [OF L, where now=t1 and d=d1] pos show ?thesis
      by (simp add: timer_running_def)
  next
    case (Some t)
    with False W have t: "0 < t" "t \<le> t1" by (simp_all add: timer_within_def)
    show ?thesis
    proof (cases "t1 - t > SILENCE_TIMEOUT")
      case True
      with Some sp lv G t sample_step(3) [OF L, where now=t1 and d=d1 and t=t] show ?thesis
        by (simp add: timer_running_def)
    next
      case False
      with Some sp lv G t sample_step(4) [OF L, where now=t1 and d=d1] show ?thesis
        by (simp add: timer_running_def)
    qed
  qed
qed

lemma step_running:
  assumes I: "turn_listening r a T s \<or> turn_declared r a s"
    and R: "timer_running r a u s"
    and S: "silent i"
  shows "timer_running r a u (fst (turn_step r s i))"
proof (cases "turn_declared r a s")
  case True
  then show ?thesis using declared_step(2) [OF True, of i] by (simp add: timer_running_def)
next
  case False
  with I have L: "turn_listening r a T s" by simp
  from False R obtain t where t: "hasSpeechStarted s" "silenceStart s = Some t" "0 < t" "t \<le> u"
    by (auto simp: timer_running_def split: option.splits)
  show ?thesis
  proof (cases i)
    case (Chunk b)
    with t listening_chunk_step(4,5) [OF L, of b] show ?thesis
      by (simp add: timer_running_def)
  next
    case (Sample now d)
    with S have lv: "level d < SILENCE_THRESHOLD" by simp
    show ?thesis
    proof (cases "hasSpeechStarted s \<and> now - T > WARMUP_PERIOD \<and> now - T > MIN_RECORDING_MS
                   \<and> now - t > SILENCE_TIMEOUT")
      case True
      with t lv sample_step(3) [OF L, where now=now and d=d and t=t] Sample show ?thesis
        by (simp add: timer_running_def)
    next
      case False
      with t lv sample_step(4) [OF L, where now=now and d=d] Sample show ?thesis
        by (auto simp: timer_running_def)
    qed
  qed
qed

lemma feed_running:
  assumes "turn_listening r a T s \<or> turn_declared r a s"
    and "timer_running r a u s"
    and "list_all silent ins"
  shows "timer_running r a u (fst (feed r s ins))"
  using assms
proof (induction ins arbitrary: s)
  case Nil
  then show ?case by simp
next
  case (Cons i ins)
  from Cons.prems(3) have si: "silent i" and sr: "list_all silent ins" by simp_all
  from Cons.IH [OF turn_step_inv(2) [OF Cons.prems(1), of i]
                   step_running [OF Cons.prems(1,2) si] sr]
  show ?case by (simp add: feed_Cons del: feed.simps)
qed

lemma step_declares:
  assumes I: "turn_listening r a T s \<or> turn_declared r a s"
    and R: "timer_running r a t1 s"
    and S: "silent (Sample t2 d2)"
    and G: "t1 - T > WARMUP_PERIOD" "t1 - T > MIN_RECORDING_MS"
    and D: "t2 - t1 > SILENCE_TIMEOUT"
  shows "turn_declared r a (fst (turn_step r s (Sample t2 d2)))"
proof (cases "turn_declared r a s")
  case True
  then show ?thesis using declared_step(2) [OF True, of "Sample t2 d2"] by simp
next
  case False
  with I have L: "turn_listening r a T s" by simp
  from False R obtain t where t: "hasSpeechStarted s" "silenceStart s = Some t" "0 < t" "t \<le> t1"
    by (auto simp: timer_running_def split: option.splits)
  from S have lv: "level d2 < SILENCE_THRESHOLD" by simp
  from D have "t1 < t2" by (simp add: SILENCE_TIMEOUT_def)
  with G have g: "t2 - T > WARMUP_PERIOD" "t2 - T > MIN_RECORDING_MS" by simp_all
  from D t(4) have d: "t2 - t > SILENCE_TIMEOUT" by simp
  from t lv g d sample_step(3) [OF L, where now=t2 and d=d2 and t=t] show ?thesis
    by simp
qed

lemma sorted_hd: "l \<noteq> [] \<Longrightarrow> sorted l \<Longrightarrow> sorted (hd l # l)"
  by (cases l) auto

lemma startTurn_body_listening:
  assumes "analyser s"
  shows "turn_listening (length (recorders s)) (length (arrays s)) T (startTurn_body T s)"
    and "arrays (startTurn_body T s) ! length (arrays s) = []"
    and "silenceStart (startTurn_body T s) = None"
  using assms
  by (simp_all add: startTurn_body_def startLevelMonitoring_def requestAnimationFrame_def
        turn_listening_def active_recorder_def Let_def nth_append)

lemma declared_stop:
  assumes "turn_declared r a s"
  shows "snd (step s (RecorderStop r))
           = (if length (arrays s ! a) > 0 then [onRecordingComplete (concat (arrays s ! a))] else [])"
  using assms by (simp add: turn_declared_def live_recorder_def run_onstop_def)

lemma pattern_declares:
  assumes L: "turn_listening r a T s" and N: "silenceStart s = None" and T: "0 \<le> T"
    and P: "\<not> list_all silent pre"
    and O: "sorted (sample_times pre @ [t1])"
    and S: "silent (Sample t1 d1)" "list_all silent mid" "silent (Sample t2 d2)"
    and G: "t1 - T > WARMUP_PERIOD" "t1 - T > MIN_RECORDING_MS"
    and D: "t2 - t1 > SILENCE_TIMEOUT"
  shows "turn_declared r a (fst (feed r s (pre @ Sample t1 d1 # mid @ Sample t2 d2 # post)))"
proof -
  let ?I = "\<lambda>s. turn_listening r a T s \<or> turn_declared r a s"
  define sA where "sA = fst (feed r s pre)"
  define sB where "sB = fst (turn_step r sA (Sample t1 d1))"
  define sC where "sC = fst (feed r sB mid)"
  define sD where "sD = fst (turn_step r sC (Sample t2 d2))"
  from L have I0: "?I s" by simp
  have IA: "?I sA" unfolding sA_def using feed_inv [OF I0, of pre] by simp
  have HA: "speech_heard r a sA" unfolding sA_def using feed_heard [OF I0, of pre] P by simp
  have "sorted (hd (sample_times pre @ [t1]) # sample_times pre @ [t1])"
    using O by (intro sorted_hd) simp_all
  moreover have "timer_within r a (hd (sample_times pre @ [t1])) s"
    using N by (simp add: timer_within_def)
  ultimately have WA: "timer_within r a t1 sA"
    unfolding sA_def using feed_within [OF I0 T] by blast
  have IB: "?I sB" unfolding sB_def using turn_step_inv(2) [OF IA] by simp
  have RB: "timer_running r a t1 sB"
    unfolding sB_def by (rule step_start_timer [OF IA T HA WA S(1) G])
  have IC: "?I sC" unfolding sC_def using feed_inv [OF IB, of mid] by simp
  have RC: "timer_running r a t1 sC"
    unfolding sC_def by (rule feed_running [OF IB RB S(2)])
  have DD: "turn_declared r a sD"
    unfolding sD_def by (rule step_declares [OF IC RC S(3) G D])
  have "fst (feed r s (pre @ Sample t1 d1 # mid @ Sample t2 d2 # post)) = fst (feed r sD post)"
    by (simp add: feed_append feed_Cons sA_def sB_def sC_def sD_def del: feed.simps)
  with feed_declared [OF DD, of post] show ?thesis by simp
qed

text \<open>
  C3, as the claim states it, fails: speech at 100 ms, then silence sampled at 1600 ms
  (both guards elapsed) and at 3700 ms (more than 2000 ms later), in a turn whose
  recorder delivered no data; the silence detector stops the turn, and the \<^verbatim>\<open>stop\<close> event
  calls nothing, because \<open>capturedChunks\<close> is empty.
\<close>

theorem turn_without_audio_counterexample:
  "\<not> silent (Sample 100 loud) \<and> silent (Sample 1600 []) \<and> silent (Sample 3700 [])
   \<and> 1600 - turnStartTime first_turn > WARMUP_PERIOD
   \<and> 1600 - turnStartTime first_turn > MIN_RECORDING_MS
   \<and> 3700 - 1600 > SILENCE_TIMEOUT
   \<and> turn_callbacks 0 first_turn speech_then_silence = []"
  apply (simp add: turn_callbacks_def speech_then_silence_def first_turn_eq turn_step_def)
  apply (simp add: startTurn_body_def mounted_def mic_ready_def startLevelMonitoring_def
      requestAnimationFrame_def Let_def updateLevel_def level_silence level_loud
      SILENCE_THRESHOLD_def WARMUP_PERIOD_def MIN_RECORDING_MS_def SILENCE_TIMEOUT_def
      stopTurn_def stopLevelMonitoring_def active_recorder_def stop_with_def live_recorder_def
      mark_stopped_def run_onstop_def)
  done

text \<open>
  C3, amended. Let a turn start at time \<open>T\<close> (\<^verbatim>\<open>startTurn\<close> on a component that has its
  analyser) and run undisturbed on samples and recorder chunks. Suppose some sample
  reaches the speech threshold; later a sample at \<open>t1\<close>, after the warmup period and the
  minimum recording time, is below the threshold, and so is every sample from then to one
  at \<open>t2\<close>, more than the silence timeout after \<open>t1\<close> (the clock not running backwards up
  to \<open>t1\<close>); and the recorder delivered at least one non-empty chunk before its \<^verbatim>\<open>stop\<close>
  event. Then the callbacks of the turn are exactly one \<^verbatim>\<open>onRecordingComplete\<close>, and its
  blob is the concatenation of all non-empty chunks of the turn, in order: those
  accumulated up to the moment silence was declared, and any the recorder flushed after.
\<close>

theorem turn_completes_once:
  assumes "analyser s" and "0 \<le> T"
    and "\<not> list_all silent pre"
    and "sorted (sample_times pre @ [t1])"
    and "silent (Sample t1 d1)" and "list_all silent mid" and "silent (Sample t2 d2)"
    and "t1 - T > WARMUP_PERIOD" and "t1 - T > MIN_RECORDING_MS"
    and "t2 - t1 > SILENCE_TIMEOUT"
    and "chunks_of (pre @ Sample t1 d1 # mid @ Sample t2 d2 # post) \<noteq> []"
  shows "turn_callbacks (length (recorders s)) (startTurn_body T s)
           (pre @ Sample t1 d1 # mid @ Sample t2 d2 # post)
         = [onRecordingComplete (concat (chunks_of (pre @ Sample t1 d1 # mid @ Sample t2 d2 # post)))]"
proof -
  let ?r = "length (recorders s)" and ?a = "length (arrays s)" and ?s0 = "startTurn_body T s"
  let ?ins = "pre @ Sample t1 d1 # mid @ Sample t2 d2 # post"
  note st = startTurn_body_listening [OF assms(1), of T]
  from st(1) have I0: "turn_listening ?r ?a T ?s0 \<or> turn_declared ?r ?a ?s0" by simp
  have D: "turn_declared ?r ?a (fst (feed ?r ?s0 ?ins))"
    by (rule pattern_declares [OF st(1) st(3) assms(2-10)])
  from feed_inv [OF I0, of ?ins] st(2)
  have out: "snd (feed ?r ?s0 ?ins) = []"
    and arr: "arrays (fst (feed ?r ?s0 ?ins)) ! ?a = chunks_of ?ins" by simp_all
  from declared_stop [OF D] arr assms(11) out show ?thesis
    by (simp add: turn_callbacks_def)
qed

theorem turn_completes_once_witness:
  "turn_callbacks 0 (startTurn_body 0 mic_ready)
      ([Chunk [1], Sample 100 loud] @ Sample 1600 [] # [Chunk [2] ] @ Sample 3700 [] # [Chunk [3] ])
    = [onRecordingComplete [1, 2, 3] ]"
proof -
  have a: "analyser mic_ready" by (simp add: mic_ready_def mounted_def)
  have r: "length (recorders mic_ready) = 0" by (simp add: mic_ready_def mounted_def)
  have p: "\<not> list_all silent [Chunk [1], Sample 100 loud]"
    by (simp add: level_loud SILENCE_THRESHOLD_def)
  have o: "sorted (sample_times [Chunk [1], Sample 100 loud] @ [1600])" by simp
  have s1: "silent (Sample 1600 [])" and s2: "list_all silent [Chunk [2] ]"
    and s3: "silent (Sample 3700 [])"
    by (simp_all add: level_silence SILENCE_THRESHOLD_def)
  have g: "1600 - 0 > WARMUP_PERIOD" "1600 - 0 > MIN_RECORDING_MS" "3700 - 1600 > SILENCE_TIMEOUT"
    by (simp_all add: WARMUP_PERIOD_def MIN_RECORDING_MS_def SILENCE_TIMEOUT_def)
  have t: "(0::int) \<le> 0" by simp
  have c: "chunks_of ([Chunk [1], Sample 100 loud] @ Sample 1600 [] # [Chunk [2] ] @ Sample 3700 [] # [Chunk [3] ]) \<noteq> []"
    by simp
  show ?thesis
    using turn_completes_once [OF a t p o s1 s2 s3 g c] r by simp
qed

end
